theory Spec2Isabelle
  imports Complex_Main "HOL-Library.AList"
begin

section \<open>miti-loki: a worker that forwards log submissions to Loki's push API\<close>

text \<open>
  The development embeds \<^verbatim>\<open>src/index.js\<close>. The file holds three successive variants
  of the worker; the one embedded is the last and most complete (with
  \<^verbatim>\<open>validateLabelName\<close> and labels from the query string). The handler is a single
  asynchronous function; its effects (reading the request body, the clock, the outbound
  \<^verbatim>\<open>fetch\<close>) are made explicit: the clock is a function of the number of reads made so
  far, and the handler returns the list of effects it performed together with its response.
  Exceptions are values: every place where the JavaScript can throw inside the
  \<^verbatim>\<open>try\<close> block is a branch that ends in the \<^verbatim>\<open>catch\<close> response.
\<close>

subsection \<open>JavaScript values obtained from \<^verbatim>\<open>JSON.parse\<close>\<close>

text \<open>
  A JSON number is parsed to an IEEE double. \<^verbatim>\<open>JSON.parse\<close> never yields NaN; it yields
  an infinity for a literal beyond the double range. Both zeros are \<open>Fin 0\<close>: the handler
  only tests numbers for truthiness and prints them, and the two zeros agree on both.
\<close>

datatype jsnum = Fin rat | PosInf | NegInf

text \<open>
  An object carries its own properties in the order \<^verbatim>\<open>Object.entries\<close> lists them (a
  parsed object has each key once). Strings are lists of characters.
\<close>

datatype json =
    JNull
  | JBool bool
  | JNum jsnum
  | JStr string
  | JArr "json list"
  | JObj "(string \<times> json) list"

text \<open>Exceptions the handler's own code can raise, by cause.\<close>

datatype exn =
    NullPropertyRead string   \<comment> \<open>TypeError: a property of \<^verbatim>\<open>null\<close> was read\<close>
  | NotAFunction string       \<comment> \<open>TypeError: the named property was called but is no function\<close>
  | NotPrimitive              \<comment> \<open>TypeError: an object could not be converted to a string\<close>
  | FetchFailure string       \<comment> \<open>\<^verbatim>\<open>fetch\<close> or reading its response rejected, with this message\<close>
  | NullBodyStatus nat        \<comment> \<open>TypeError: a body was given to a response with a null-body status\<close>
  | StatusOutOfRange nat      \<comment> \<open>RangeError: response status outside 200..599\<close>

text \<open>ToBoolean on parsed values; a property that is missing reads as \<^verbatim>\<open>undefined\<close>, here \<open>None\<close>.\<close>

fun truthy :: "json \<Rightarrow> bool" where
  "truthy JNull = False"
| "truthy (JBool b) = b"
| "truthy (JNum n) = (n \<noteq> Fin 0)"
| "truthy (JStr s) = (s \<noteq> [])"
| "truthy (JArr xs) = True"
| "truthy (JObj kvs) = True"

fun truthyOpt :: "json option \<Rightarrow> bool" where
  "truthyOpt None = False"
| "truthyOpt (Some v) = truthy v"

text \<open>
  \<^verbatim>\<open>entry.message\<close>, \<^verbatim>\<open>entry.timestamp\<close>, \<^verbatim>\<open>entry.metadata\<close>: reading a property of
  \<^verbatim>\<open>null\<close> throws; an object yields its own property; on every other value (numbers,
  strings, booleans, arrays) and on an object without the key the lookup ends in the
  prototype, which has none of the three names.
\<close>

fun getProp :: "json \<Rightarrow> string \<Rightarrow> exn + json option" where
  "getProp JNull k = Inl (NullPropertyRead k)"
| "getProp (JObj kvs) k = Inr (map_of kvs k)"
| "getProp v k = Inr None"

fun typeof :: "json \<Rightarrow> string" where
  "typeof JNull = ''object''"
| "typeof (JBool b) = ''boolean''"
| "typeof (JNum n) = ''number''"
| "typeof (JStr s) = ''string''"
| "typeof (JArr xs) = ''object''"
| "typeof (JObj kvs) = ''object''"

fun isArray :: "json \<Rightarrow> bool" where
  "isArray (JArr xs) = True"
| "isArray v = False"

text \<open>\<^verbatim>\<open>Object.entries\<close> and \<^verbatim>\<open>Object.keys\<close>, as the handler uses them: on a non-array object.\<close>

fun Object_entries :: "json \<Rightarrow> (string \<times> json) list" where
  "Object_entries (JObj kvs) = kvs"
| "Object_entries v = []"

definition Object_keys :: "json \<Rightarrow> string list" where
  "Object_keys v = map fst (Object_entries v)"

subsection \<open>The platform\<close>

text \<open>
  What the runtime provides and the repository does not define. \<open>JSON_parse\<close> returns the
  message of the SyntaxError on the left. \<open>Date_now_text k\<close> is the text that
  \<^verbatim>\<open>(Date.now() * 1000000).toString()\<close> yields at the \<open>k\<close>-th reading of the clock
  (counted from 0). \<open>fetch\<close> stands for the outbound call together with reading the text of
  its response; it returns the message of the rejection on the left.
\<close>

record loki_stream =
  stream :: "(string \<times> string) list"
  "values" :: "json list list"

record fetch_request =
  url :: string
  fmethod :: string
  fheaders :: "(string \<times> string) list"
  streams :: "loki_stream list"   \<comment> \<open>the body is \<^verbatim>\<open>JSON.stringify({streams: ...})\<close>\<close>

record loki_response =
  lstatus :: nat
  lstatusText :: string
  lcontentType :: "string option"   \<comment> \<open>\<^verbatim>\<open>headers.get('Content-Type')\<close>\<close>
  ltext :: string

record platform =
  JSON_parse :: "string \<Rightarrow> string + json"
  Date_now_text :: "nat \<Rightarrow> string"
  Number_toString :: "jsnum \<Rightarrow> string"
  btoa :: "string \<Rightarrow> string"
  fetch :: "fetch_request \<Rightarrow> string + loki_response"
  errorMessage :: "exn \<Rightarrow> string"

subsection \<open>\<^verbatim>\<open>toString()\<close> on a parsed value\<close>

text \<open>
  \<^verbatim>\<open>timestamp.toString()\<close>: a string is itself, a number and a boolean print, an array
  joins the texts of its elements with commas (\<^verbatim>\<open>null\<close> elements print as nothing, the
  others are converted to strings), and a plain object prints as \<^verbatim>\<open>[object Object]\<close>
  unless it has an own property \<^verbatim>\<open>toString\<close>: a parsed value is never a function, so
  calling it throws, and converting such an object inside a join throws as well.
\<close>

fun toStringJ :: "platform \<Rightarrow> json \<Rightarrow> exn + string"
  and joinJ :: "platform \<Rightarrow> json list \<Rightarrow> exn + string" where
  "toStringJ P JNull = Inl (NullPropertyRead ''toString'')"
| "toStringJ P (JBool b) = Inr (if b then ''true'' else ''false'')"
| "toStringJ P (JNum n) = Inr (Number_toString P n)"
| "toStringJ P (JStr s) = Inr s"
| "toStringJ P (JArr xs) = joinJ P xs"
| "toStringJ P (JObj kvs) =
     (case map_of kvs ''toString'' of
        Some f \<Rightarrow> Inl (NotAFunction ''toString'')
      | None \<Rightarrow> Inr ''[object Object]'')"
| "joinJ P [] = Inr []"
| "joinJ P (x # xs) =
     (case (case x of
              JNull \<Rightarrow> Inr []
            | JObj kvs \<Rightarrow> (case map_of kvs ''toString'' of
                             Some f \<Rightarrow> Inl NotPrimitive
                           | None \<Rightarrow> Inr ''[object Object]'')
            | _ \<Rightarrow> toStringJ P x) of
        Inl e \<Rightarrow> Inl e
      | Inr s \<Rightarrow>
          (if xs = [] then Inr s
           else (case joinJ P xs of
                   Inl e \<Rightarrow> Inl e
                 | Inr t \<Rightarrow> Inr (s @ '','' @ t))))"

subsection \<open>Requests, configuration, responses and effects\<close>

text \<open>
  \<open>searchParams\<close> is \<^verbatim>\<open>url.searchParams.entries()\<close>: the decoded pairs of the query string,
  in order, repeated keys included. \<open>headers_get\<close> is \<^verbatim>\<open>request.headers.get\<close>. \<open>body\<close> is
  the text that \<^verbatim>\<open>await request.text()\<close> delivers; reading it is taken to succeed.
\<close>

record request =
  "method" :: string
  searchParams :: "(string \<times> string) list"
  headers_get :: "string \<Rightarrow> string option"
  body :: string

record env =
  LOKI_HOST :: "string option"
  LOKI_PORT :: "string option"
  LOKI_USERNAME :: "string option"
  LOKI_PASSWORD :: "string option"

text \<open>
  A response as the handler constructs it: the body (\<open>None\<close> is \<^verbatim>\<open>null\<close>), and the
  \<^verbatim>\<open>status\<close>, \<^verbatim>\<open>statusText\<close> and \<^verbatim>\<open>headers\<close> of the init object.
\<close>

record response =
  rbody :: "string option"
  status :: nat
  statusText :: string
  headers :: "(string \<times> string) list"

datatype effect = ReadBody | Fetch fetch_request

text \<open>An abrupt end of the validation loop: an early \<^verbatim>\<open>return\<close> of a response, or a throw.\<close>

datatype abort = Reject response | Throw exn

text \<open>\<^verbatim>\<open>new Response(text, {status: s, headers: {'Access-Control-Allow-Origin': '*'}})\<close>\<close>

definition plainResponse :: "nat \<Rightarrow> string \<Rightarrow> response" where
  "plainResponse s text =
     \<lparr>rbody = Some text, status = s, statusText = [],
      headers = [(''Access-Control-Allow-Origin'', ''*'')]\<rparr>"

text \<open>A string of the configuration or of a header is falsy when missing or empty.\<close>

fun truthyStr :: "string option \<Rightarrow> bool" where
  "truthyStr None = False"
| "truthyStr (Some s) = (s \<noteq> [])"

text \<open>\<^verbatim>\<open>a || b\<close> on an optional string and a string.\<close>

fun orElse :: "string option \<Rightarrow> string \<Rightarrow> string" where
  "orElse None d = d"
| "orElse (Some s) d = (if s \<noteq> [] then s else d)"

text \<open>Interpolation of a configuration value that passed the truthiness check.\<close>

fun interp :: "string option \<Rightarrow> string" where
  "interp None = ''undefined''"
| "interp (Some s) = s"

subsection \<open>\<^verbatim>\<open>validateLabelName\<close>\<close>

text \<open>
  The regular expression \<^verbatim>\<open>/^[a-zA-Z_:][a-zA-Z0-9_:]*$/\<close> is kept as data: a sequence of
  items, each a character class taken once or any number of times, matched against the
  whole string (without the \<^verbatim>\<open>m\<close> flag \<^verbatim>\<open>$\<close> matches at the very end only).
\<close>

datatype cclass = Range char char | Single char

datatype item = Once "cclass list" | Many "cclass list"

fun inClass :: "cclass \<Rightarrow> char \<Rightarrow> bool" where
  "inClass (Range lo hi) c = ((of_char lo :: nat) \<le> of_char c \<and> (of_char c :: nat) \<le> of_char hi)"
| "inClass (Single d) c = (c = d)"

definition inClasses :: "cclass list \<Rightarrow> char \<Rightarrow> bool" where
  "inClasses cs c = list_ex (\<lambda>k. inClass k c) cs"

fun regexTest :: "item list \<Rightarrow> string \<Rightarrow> bool" where
  "regexTest [] s = (s = [])"
| "regexTest (Once cs # r) [] = False"
| "regexTest (Once cs # r) (c # s) = (inClasses cs c \<and> regexTest r s)"
| "regexTest (Many cs # r) [] = regexTest r []"
| "regexTest (Many cs # r) (c # s) =
     ((inClasses cs c \<and> regexTest (Many cs # r) s) \<or> regexTest r (c # s))"

definition labelRegex :: "item list" where
  "labelRegex =
     [Once [Range CHR ''a'' CHR ''z'', Range CHR ''A'' CHR ''Z'', Single CHR ''_'', Single CHR '':''],
      Many [Range CHR ''a'' CHR ''z'', Range CHR ''A'' CHR ''Z'', Range CHR ''0'' CHR ''9'',
            Single CHR ''_'', Single CHR '':'']]"

definition startsWith :: "string \<Rightarrow> string \<Rightarrow> bool" where
  "startsWith s p = (take (length p) s = p)"

definition endsWith :: "string \<Rightarrow> string \<Rightarrow> bool" where
  "endsWith s p = (length p \<le> length s \<and> drop (length s - length p) s = p)"

definition validateLabelName :: "string \<Rightarrow> bool" where
  "validateLabelName name =
     (if \<not> regexTest labelRegex name then False
      else if startsWith name ''_'' \<and> endsWith name ''_'' then False
      else True)"

subsection \<open>The validation loop of \<^verbatim>\<open>handleRequest\<close>\<close>

definition messageRequired :: response where
  \<open>messageRequired = plainResponse 400 ''Each log entry must have a "message" field''\<close>

definition metadataNotObject :: response where
  "metadataNotObject = plainResponse 400 ''Metadata must be an object''"

definition metadataNested :: "string \<Rightarrow> response" where
  \<open>metadataNested key =
     plainResponse 400
       (''Metadata field "'' @ key @
        ''" contains nested object. Only flat key-value pairs are allowed.'')\<close>

text \<open>
  The inner loop over \<^verbatim>\<open>Object.entries(entry.metadata)\<close>: the key of the first entry whose
  value is an object other than \<^verbatim>\<open>null\<close>, if there is one.
\<close>

fun firstNested :: "(string \<times> json) list \<Rightarrow> string option" where
  "firstNested [] = None"
| "firstNested ((key, v) # kvs) =
     (if typeof v = ''object'' \<and> v \<noteq> JNull then Some key else firstNested kvs)"

text \<open>
  \<^verbatim>\<open>values.push([timestamp.toString(), entry.message (, entry.metadata)])\<close>: the tuple, or
  the exception of \<^verbatim>\<open>toString\<close>.
\<close>

definition tuple :: "platform \<Rightarrow> json \<Rightarrow> json list \<Rightarrow> abort + json list" where
  "tuple P timestamp rest =
     (case toStringJ P timestamp of
        Inl e \<Rightarrow> Inl (Throw e)
      | Inr t \<Rightarrow> Inr (JStr t # rest))"

text \<open>
  The body of the loop over the entries. \<open>k\<close> counts the clock readings made so far; the
  result is the tuple pushed and the new count. The clock is read only when
  \<^verbatim>\<open>entry.timestamp\<close> is falsy.
\<close>

definition entryStep :: "platform \<Rightarrow> nat \<Rightarrow> json \<Rightarrow> abort + (json list \<times> nat)" where
  "entryStep P k entry =
     (case getProp entry ''message'' of
        Inl e \<Rightarrow> Inl (Throw e)
      | Inr None \<Rightarrow> Inl (Reject messageRequired)
      | Inr (Some message) \<Rightarrow>
          if \<not> truthy message then Inl (Reject messageRequired)
          else
            (case getProp entry ''timestamp'' of
               Inl e \<Rightarrow> Inl (Throw e)
             | Inr tsField \<Rightarrow>
                 let (timestamp, k') =
                       (case tsField of
                          None \<Rightarrow> (JStr (Date_now_text P k), Suc k)
                        | Some t \<Rightarrow> if truthy t then (t, k)
                                    else (JStr (Date_now_text P k), Suc k))
                 in
                 (case getProp entry ''metadata'' of
                    Inl e \<Rightarrow> Inl (Throw e)
                  | Inr None \<Rightarrow> map_sum id (\<lambda>t. (t, k')) (tuple P timestamp [message])
                  | Inr (Some metadata) \<Rightarrow>
                      if truthy metadata then
                        if typeof metadata \<noteq> ''object'' \<or> isArray metadata
                        then Inl (Reject metadataNotObject)
                        else
                          (case firstNested (Object_entries metadata) of
                             Some key \<Rightarrow> Inl (Reject (metadataNested key))
                           | None \<Rightarrow>
                               if length (Object_keys metadata) > 0
                               then map_sum id (\<lambda>t. (t, k'))
                                      (tuple P timestamp [message, metadata])
                               else map_sum id (\<lambda>t. (t, k'))
                                      (tuple P timestamp [message]))
                      else map_sum id (\<lambda>t. (t, k')) (tuple P timestamp [message]))))"

text \<open>\<^verbatim>\<open>for (const entry of logs) { ... }\<close>, with \<^verbatim>\<open>values\<close> as the accumulator.\<close>

fun buildValues ::
  "platform \<Rightarrow> nat \<Rightarrow> json list \<Rightarrow> json list list \<Rightarrow> abort + (json list list \<times> nat)" where
  "buildValues P k [] vals = Inr (vals, k)"
| "buildValues P k (entry # logs) vals =
     (case entryStep P k entry of
        Inl a \<Rightarrow> Inl a
      | Inr (t, k') \<Rightarrow> buildValues P k' logs (vals @ [t]))"

subsection \<open>Labels, destination and dispatch\<close>

text \<open>\<^verbatim>\<open>a || b\<close> on two optional strings.\<close>

fun orOpt :: "string option \<Rightarrow> string option \<Rightarrow> string option" where
  "orOpt None b = b"
| "orOpt (Some s) b = (if s \<noteq> [] then Some s else b)"

definition clientIP :: "request \<Rightarrow> string" where
  "clientIP request =
     orElse (orOpt (headers_get request ''CF-Connecting-IP'')
                   (headers_get request ''X-Forwarded-For''))
            ''unknown''"

definition invalidLabel :: "string \<Rightarrow> response" where
  \<open>invalidLabel key =
     plainResponse 400
       (''Invalid label name "'' @ key @
        ''". Label names must match [a-zA-Z_:][a-zA-Z0-9_:]* and cannot start and end with double underscores.'')\<close>

text \<open>
  \<^verbatim>\<open>for (const [key, value] of url.searchParams.entries()) { ...; stream[key] = value; }\<close>.
  Assigning to a property that exists keeps its place among the properties, as
  \<open>AList.update\<close> does.
\<close>

fun buildStream ::
  "(string \<times> string) list \<Rightarrow> (string \<times> string) list \<Rightarrow> response + (string \<times> string) list" where
  "buildStream [] labels = Inr labels"
| "buildStream ((key, v) # params) labels =
     (if \<not> validateLabelName key then Inl (invalidLabel key)
      else buildStream params (AList.update key v labels))"

definition lokiPort :: "env \<Rightarrow> string" where
  "lokiPort env = orElse (LOKI_PORT env) ''443''"

definition protocol :: "env \<Rightarrow> string" where
  "protocol env = (if lokiPort env = ''443'' then ''https'' else ''http'')"

definition lokiUrl :: "env \<Rightarrow> string" where
  "lokiUrl env =
     protocol env @ ''://'' @ interp (LOKI_HOST env) @ '':'' @ lokiPort env @ ''/loki/api/v1/push''"

text \<open>
  \<^verbatim>\<open>btoa\<close> throws on a character beyond Latin-1 only; the characters of a \<open>string\<close> are
  all within it.
\<close>

definition auth :: "platform \<Rightarrow> env \<Rightarrow> string" where
  "auth P env = btoa P (interp (LOKI_USERNAME env) @ '':'' @ interp (LOKI_PASSWORD env))"

definition lokiRequest ::
  "platform \<Rightarrow> env \<Rightarrow> (string \<times> string) list \<Rightarrow> json list list \<Rightarrow> fetch_request" where
  "lokiRequest P env labels vals =
     \<lparr>url = lokiUrl env, fmethod = ''POST'',
      fheaders = [(''Content-Type'', ''application/json''),
                  (''Authorization'', ''Basic '' @ auth P env)],
      streams = [\<lparr>stream = labels, values = vals\<rparr>]\<rparr>"

text \<open>
  The response relayed to the caller. The \<^verbatim>\<open>Response\<close> constructor throws a RangeError
  for a status outside 200..599 and a TypeError when a body (here always a string) comes
  with a null-body status.
\<close>

definition relay :: "loki_response \<Rightarrow> exn + response" where
  "relay r =
     (if lstatus r < 200 \<or> 599 < lstatus r then Inl (StatusOutOfRange (lstatus r))
      else if lstatus r \<in> set [101, 103, 204, 205, 304] then Inl (NullBodyStatus (lstatus r))
      else Inr \<lparr>rbody = Some (ltext r), status = lstatus r, statusText = lstatusText r,
                headers = [(''Content-Type'', orElse (lcontentType r) ''text/plain''),
                           (''Access-Control-Allow-Origin'', ''*''),
                           (''Access-Control-Allow-Methods'', ''POST, OPTIONS''),
                           (''Access-Control-Allow-Headers'', ''Content-Type'')]\<rparr>)"

text \<open>The \<^verbatim>\<open>catch\<close> block.\<close>

definition caught :: "platform \<Rightarrow> exn \<Rightarrow> response" where
  "caught P e = plainResponse 500 (''Error forwarding to Loki: '' @ errorMessage P e)"

definition redirect :: response where
  "redirect =
     \<lparr>rbody = None, status = 302, statusText = [],
      headers = [(''Location'', ''https://github.com/tiennm99/miti-loki'')]\<rparr>"

definition methodNotAllowed :: response where
  "methodNotAllowed = plainResponse 405 ''Method not allowed. Please use POST.''"

definition configurationError :: response where
  "configurationError =
     plainResponse 500 ''Server configuration error: Missing Loki credentials''"

definition bodyRequired :: response where
  "bodyRequired = plainResponse 400 ''Request body is required''"

definition invalidJSON :: "string \<Rightarrow> response" where
  "invalidJSON m = plainResponse 400 (''Invalid JSON: '' @ m)"

text \<open>\<^verbatim>\<open>Array.isArray(data) ? data : [data]\<close>\<close>

fun logsOf :: "json \<Rightarrow> json list" where
  "logsOf (JArr xs) = xs"
| "logsOf v = [v]"

subsection \<open>\<^verbatim>\<open>handleRequest\<close>\<close>

text \<open>The part of the \<^verbatim>\<open>try\<close> block after the values are built.\<close>

definition dispatch ::
  "platform \<Rightarrow> request \<Rightarrow> env \<Rightarrow> json list list \<Rightarrow> effect list \<times> response" where
  "dispatch P request env vals =
     (let ip = clientIP request in
      case buildStream (searchParams request) [] of
        Inl r \<Rightarrow> ([ReadBody], r)
      | Inr labels0 \<Rightarrow>
          let labels = AList.update ''ip'' ip (AList.update ''proxy'' ''miti-loki'' labels0);
              rq = lokiRequest P env labels vals
          in (case fetch P rq of
                Inl m \<Rightarrow> ([ReadBody, Fetch rq], caught P (FetchFailure m))
              | Inr lr \<Rightarrow>
                  (case relay lr of
                     Inl e \<Rightarrow> ([ReadBody, Fetch rq], caught P e)
                   | Inr r \<Rightarrow> ([ReadBody, Fetch rq], r))))"

text \<open>The \<^verbatim>\<open>try\<close> block, from reading the body on.\<close>

definition tryBlock :: "platform \<Rightarrow> request \<Rightarrow> env \<Rightarrow> effect list \<times> response" where
  "tryBlock P request env =
     (if body request = [] then ([ReadBody], bodyRequired)
      else
        (case JSON_parse P (body request) of
           Inl m \<Rightarrow> ([ReadBody], invalidJSON m)
         | Inr data \<Rightarrow>
             (case buildValues P 0 (logsOf data) [] of
                Inl (Reject r) \<Rightarrow> ([ReadBody], r)
              | Inl (Throw e) \<Rightarrow> ([ReadBody], caught P e)
              | Inr (vals, k) \<Rightarrow> dispatch P request env vals)))"

definition handleRequest :: "platform \<Rightarrow> request \<Rightarrow> env \<Rightarrow> effect list \<times> response" where
  "handleRequest P request env =
     (if method request = ''GET'' then ([], redirect)
      else if method request \<noteq> ''POST'' then ([], methodNotAllowed)
      else if \<not> truthyStr (LOKI_HOST env) \<or> \<not> truthyStr (LOKI_USERNAME env)
              \<or> \<not> truthyStr (LOKI_PASSWORD env)
           then ([], configurationError)
      else tryBlock P request env)"

subsection \<open>\<^verbatim>\<open>handleOptions\<close> and the exported \<^verbatim>\<open>fetch\<close>\<close>

definition handleOptions :: response where
  "handleOptions =
     \<lparr>rbody = None, status = 204, statusText = [],
      headers = [(''Access-Control-Allow-Origin'', ''*''),
                 (''Access-Control-Allow-Methods'', ''POST, OPTIONS''),
                 (''Access-Control-Allow-Headers'', ''Content-Type''),
                 (''Access-Control-Max-Age'', ''86400'')]\<rparr>"

definition fetch_handler :: "platform \<Rightarrow> request \<Rightarrow> env \<Rightarrow> effect list \<times> response" where
  "fetch_handler P request env =
     (if method request = ''OPTIONS'' then ([], handleOptions)
      else handleRequest P request env)"

section \<open>Predicates of the specification\<close>

subsection \<open>The label grammar\<close>

text \<open>
  The specification's grammar \<^verbatim>\<open>[a-zA-Z_:][a-zA-Z0-9_:]*\<close>, written out: a first
  character that is a letter, an underscore or a colon, followed by any number of
  characters that are one of these or a digit. The letters and digits are listed.
\<close>

definition lowerChars :: string where
  "lowerChars = ''abcdefghijklmnopqrstuvwxyz''"

definition upperChars :: string where
  "upperChars = ''ABCDEFGHIJKLMNOPQRSTUVWXYZ''"

definition digitChars :: string where
  "digitChars = ''0123456789''"

definition labelStart :: "char \<Rightarrow> bool" where
  "labelStart c =
     (c \<in> set lowerChars \<or> c \<in> set upperChars \<or> c = CHR ''_'' \<or> c = CHR '':'')"

definition labelRest :: "char \<Rightarrow> bool" where
  "labelRest c = (labelStart c \<or> c \<in> set digitChars)"

fun labelGrammar :: "string \<Rightarrow> bool" where
  "labelGrammar [] = False"
| "labelGrammar (c # cs) = (labelStart c \<and> list_all labelRest cs)"

subsection \<open>Valid entries\<close>

text \<open>An entry has a non-empty message: the property is there and is truthy.\<close>

definition hasMessage :: "json \<Rightarrow> bool" where
  "hasMessage entry =
     (case getProp entry ''message'' of Inr (Some m) \<Rightarrow> truthy m | _ \<Rightarrow> False)"

text \<open>A scalar is a string, a number, a boolean or \<^verbatim>\<open>null\<close>.\<close>

fun scalar :: "json \<Rightarrow> bool" where
  "scalar (JArr xs) = False"
| "scalar (JObj kvs) = False"
| "scalar v = True"

fun flatObject :: "json \<Rightarrow> bool" where
  "flatObject (JObj kvs) = list_all (\<lambda>(key, v). scalar v) kvs"
| "flatObject v = False"

text \<open>The metadata is absent, falsy, or an object that is no array and holds scalars only.\<close>

definition metadataOk :: "json \<Rightarrow> bool" where
  "metadataOk entry =
     (case getProp entry ''metadata'' of
        Inr (Some md) \<Rightarrow> \<not> truthy md \<or> flatObject md
      | Inr None \<Rightarrow> True
      | Inl e \<Rightarrow> False)"

text \<open>
  A value whose \<^verbatim>\<open>toString()\<close> returns: no object with an own property \<^verbatim>\<open>toString\<close>
  is the value itself or an element to be joined, at any depth of arrays.
\<close>

fun printable :: "json \<Rightarrow> bool" and printableElems :: "json list \<Rightarrow> bool" where
  "printable JNull = False"
| "printable (JBool b) = True"
| "printable (JNum n) = True"
| "printable (JStr s) = True"
| "printable (JArr xs) = printableElems xs"
| "printable (JObj kvs) = (map_of kvs ''toString'' = None)"
| "printableElems [] = True"
| "printableElems (x # xs) = ((x = JNull \<or> printable x) \<and> printableElems xs)"

text \<open>The timestamp is absent, falsy, or can be printed.\<close>

definition timestampOk :: "json \<Rightarrow> bool" where
  "timestampOk entry =
     (case getProp entry ''timestamp'' of
        Inr (Some t) \<Rightarrow> \<not> truthy t \<or> printable t
      | Inr None \<Rightarrow> True
      | Inl e \<Rightarrow> False)"

definition validEntry :: "json \<Rightarrow> bool" where
  "validEntry entry = (hasMessage entry \<and> metadataOk entry \<and> timestampOk entry)"

text \<open>The metadata of the entry is an object with at least one key.\<close>

definition hasKeys :: "json \<Rightarrow> bool" where
  "hasKeys entry =
     (case getProp entry ''metadata'' of
        Inr (Some (JObj kvs)) \<Rightarrow> kvs \<noteq> []
      | _ \<Rightarrow> False)"

text \<open>Host, username and password are all configured, as the handler tests them.\<close>

definition configured :: "env \<Rightarrow> bool" where
  "configured env =
     (truthyStr (LOKI_HOST env) \<and> truthyStr (LOKI_USERNAME env) \<and> truthyStr (LOKI_PASSWORD env))"

text \<open>
  The client address as the amended claim words it: the \<^verbatim>\<open>CF-Connecting-IP\<close> header when
  present and not empty, else the \<^verbatim>\<open>X-Forwarded-For\<close> header when present and not empty,
  else \<^verbatim>\<open>unknown\<close>.
\<close>

definition resolvedIP :: "request \<Rightarrow> string" where
  "resolvedIP request =
     (case headers_get request ''CF-Connecting-IP'' of
        Some (c # cs) \<Rightarrow> c # cs
      | _ \<Rightarrow>
          (case headers_get request ''X-Forwarded-For'' of
             Some (c # cs) \<Rightarrow> c # cs
           | _ \<Rightarrow> ''unknown''))"

subsection \<open>Names for parts of the loop body\<close>

text \<open>The timestamp the loop body settles on, and the count of clock readings after it.\<close>

definition chosenTimestamp :: "platform \<Rightarrow> nat \<Rightarrow> json \<Rightarrow> json \<times> nat" where
  "chosenTimestamp P k entry =
     (case getProp entry ''timestamp'' of
        Inr (Some t) \<Rightarrow> if truthy t then (t, k) else (JStr (Date_now_text P k), Suc k)
      | _ \<Rightarrow> (JStr (Date_now_text P k), Suc k))"

definition push :: "platform \<Rightarrow> nat \<Rightarrow> json \<Rightarrow> json list \<Rightarrow> abort + (json list \<times> nat)" where
  "push P k entry rest =
     map_sum id (\<lambda>t. (t, snd (chosenTimestamp P k entry)))
       (tuple P (fst (chosenTimestamp P k entry)) rest)"

subsection \<open>Inputs for the examples\<close>

text \<open>
  A platform whose \<^verbatim>\<open>JSON.parse\<close> yields the given document, whose clock reads two
  successive instants, and whose backend answers 200. Numbers are not printed in the
  examples.
\<close>

definition examplePlatform :: "json \<Rightarrow> platform" where
  "examplePlatform doc =
     \<lparr>JSON_parse = (\<lambda>s. Inr doc),
      Date_now_text = (\<lambda>k. if k = 0 then ''1762170000000000000'' else ''1762170000001000000''),
      Number_toString = (\<lambda>n. ''0''),
      btoa = (\<lambda>s. ''dXNlcjpzZWNyZXQ=''),
      fetch = (\<lambda>rq. Inr \<lparr>lstatus = 200, lstatusText = ''OK'', lcontentType = None, ltext = []\<rparr>),
      errorMessage = (\<lambda>e. ''Cannot read properties of null'')\<rparr>"

definition exampleEnv :: env where
  "exampleEnv =
     \<lparr>LOKI_HOST = Some ''logs.example.net'', LOKI_PORT = None,
      LOKI_USERNAME = Some ''user'', LOKI_PASSWORD = Some ''secret''\<rparr>"

definition exampleRequest :: "string \<Rightarrow> request" where
  "exampleRequest b =
     \<lparr>method = ''POST'', searchParams = [], headers_get = (\<lambda>h. None), body = b\<rparr>"

text \<open>
  Two header sets: one with a trusted-proxy header, one where that header is present but
  empty and a forwarding header follows.
\<close>

definition trustedHeader :: "string \<Rightarrow> string option" where
  "trustedHeader h = (if h = ''CF-Connecting-IP'' then Some ''198.51.100.4'' else None)"

definition emptyTrustedHeader :: "string \<Rightarrow> string option" where
  "emptyTrustedHeader h =
     (if h = ''CF-Connecting-IP'' then Some []
      else if h = ''X-Forwarded-For'' then Some ''203.0.113.7''
      else None)"

section \<open>Properties\<close>

subsection \<open>The regular expression and the grammar\<close>

lemma in_set_codes: "c \<in> set cs \<longleftrightarrow> (of_char c :: nat) \<in> set (map of_char cs)"
  by (simp add: inj_image_mem_iff [OF inj_of_char])

lemma lower_codes: "map of_char lowerChars = [97..<123 :: nat]"
  unfolding lowerChars_def by code_simp

lemma upper_codes: "map of_char upperChars = [65..<91 :: nat]"
  unfolding upperChars_def by code_simp

lemma digit_codes: "map of_char digitChars = [48..<58 :: nat]"
  unfolding digitChars_def by code_simp

lemma range_codes:
  assumes "map of_char cs = [a..<b]" and "of_char lo = a" and "Suc (of_char hi) = b"
  shows "inClass (Range lo hi) c \<longleftrightarrow> c \<in> set cs"
proof -
  have "c \<in> set cs \<longleftrightarrow> (of_char c :: nat) \<in> set [a..<b]"
    using in_set_codes [of c cs] by (simp only: assms(1))
  also have "\<dots> \<longleftrightarrow> a \<le> of_char c \<and> of_char c < b"
    by (simp only: set_upt atLeastLessThan_iff)
  also have "\<dots> \<longleftrightarrow> (of_char lo :: nat) \<le> of_char c \<and> (of_char c :: nat) \<le> of_char hi"
    unfolding assms(2) assms(3) [symmetric] by (simp only: less_Suc_eq_le)
  finally show ?thesis by (simp only: inClass.simps)
qed

lemma lower_range: "inClass (Range CHR ''a'' CHR ''z'') c \<longleftrightarrow> c \<in> set lowerChars"
  by (rule range_codes [OF lower_codes]) simp_all

lemma upper_range: "inClass (Range CHR ''A'' CHR ''Z'') c \<longleftrightarrow> c \<in> set upperChars"
  by (rule range_codes [OF upper_codes]) simp_all

lemma digit_range: "inClass (Range CHR ''0'' CHR ''9'') c \<longleftrightarrow> c \<in> set digitChars"
  by (rule range_codes [OF digit_codes]) simp_all

lemma regexTest_Many: "regexTest [Many cs] s = list_all (inClasses cs) s"
  by (induction s) auto

lemma start_class:
  "inClasses [Range CHR ''a'' CHR ''z'', Range CHR ''A'' CHR ''Z'',
              Single CHR ''_'', Single CHR '':''] c
     = labelStart c"
  unfolding inClasses_def labelStart_def
  by (simp only: list_ex_Nil_iff list_ex_Cons_iff lower_range upper_range inClass.simps(2)) simp

lemma rest_class:
  "inClasses [Range CHR ''a'' CHR ''z'', Range CHR ''A'' CHR ''Z'', Range CHR ''0'' CHR ''9'',
              Single CHR ''_'', Single CHR '':''] c
     = labelRest c"
  unfolding inClasses_def labelRest_def labelStart_def
  by (simp only: list_ex_Nil_iff list_ex_Cons_iff lower_range upper_range digit_range
        inClass.simps(2)) blast

lemma regexTest_labelRegex: "regexTest labelRegex name = labelGrammar name"
proof (cases name)
  case Nil
  then show ?thesis by (simp add: labelRegex_def)
next
  case (Cons c cs)
  have "list_all (inClasses [Range CHR ''a'' CHR ''z'', Range CHR ''A'' CHR ''Z'',
          Range CHR ''0'' CHR ''9'', Single CHR ''_'', Single CHR '':'']) cs
        = list_all labelRest cs"
    by (simp only: rest_class [abs_def])
  with Cons show ?thesis
    unfolding labelRegex_def
    by (simp only: regexTest.simps regexTest_Many start_class labelGrammar.simps)
qed

lemma startsWith_underscore: "startsWith name ''_'' \<longleftrightarrow> name \<noteq> [] \<and> hd name = CHR ''_''"
  by (cases name) (simp_all add: startsWith_def)

lemma endsWith_underscore: "endsWith name ''_'' \<longleftrightarrow> name \<noteq> [] \<and> last name = CHR ''_''"
proof (cases name rule: rev_cases)
  case Nil
  then show ?thesis by (simp add: endsWith_def)
next
  case (snoc ys y)
  then show ?thesis by (simp add: endsWith_def)
qed

lemma validateLabelName_iff:
  "validateLabelName name \<longleftrightarrow>
     labelGrammar name \<and> \<not> (hd name = CHR ''_'' \<and> last name = CHR ''_'')"
  unfolding validateLabelName_def regexTest_labelRegex startsWith_underscore endsWith_underscore
  by (cases name) auto

lemma buildStream_ok_iff:
  "(\<exists>labels. buildStream params acc = Inr labels) \<longleftrightarrow>
     list_all validateLabelName (map fst params)"
  by (induction params acc rule: buildStream.induct) auto

lemma buildStream_reject_at:
  assumes "list_all validateLabelName (map fst pre)" "\<not> validateLabelName key"
  shows "buildStream (pre @ (key, v) # post) acc = Inl (invalidLabel key)"
  using assms by (induction pre acc rule: buildStream.induct) auto

subsection \<open>The loop body\<close>

lemma firstNested_None_iff: "firstNested kvs = None \<longleftrightarrow> list_all (\<lambda>(key, v). scalar v) kvs"
proof (induction kvs)
  case Nil
  then show ?case by simp
next
  case (Cons kv kvs)
  obtain key v where "kv = (key, v)" by (cases kv)
  with Cons show ?case by (cases v) simp_all
qed

lemma toStringJ_printable:
  "(\<exists>s. toStringJ P v = Inr s) \<longleftrightarrow> printable v"
  "(\<exists>s. joinJ P xs = Inr s) \<longleftrightarrow> printableElems xs"
proof (induction P v and P xs rule: toStringJ_joinJ.induct)
  case (8 P x xs)
  then show ?case 
    by (cases x) (auto split: sum.splits option.splits)
qed (auto split: option.splits)

lemma entryStep_null: "entryStep P k JNull = Inl (Throw (NullPropertyRead ''message''))"
  by (simp add: entryStep_def)

lemma entryStep_no_message:
  "entry \<noteq> JNull \<Longrightarrow> \<not> hasMessage entry \<Longrightarrow> entryStep P k entry = Inl (Reject messageRequired)"
  by (cases entry) (auto simp: entryStep_def hasMessage_def split: option.splits)

lemma hasMessage_cases:
  assumes "hasMessage entry"
  obtains kvs m where "entry = JObj kvs" "map_of kvs ''message'' = Some m" "truthy m"
  using assms by (cases entry) (auto simp: hasMessage_def split: option.splits)

lemma entryStep_JObj:
  assumes "map_of kvs ''message'' = Some m" "truthy m"
  shows "entryStep P k (JObj kvs) =
     (case map_of kvs ''metadata'' of
        None \<Rightarrow> push P k (JObj kvs) [m]
      | Some md \<Rightarrow>
          if truthy md then
            if typeof md \<noteq> ''object'' \<or> isArray md then Inl (Reject metadataNotObject)
            else (case firstNested (Object_entries md) of
                    Some key \<Rightarrow> Inl (Reject (metadataNested key))
                  | None \<Rightarrow> if Object_entries md \<noteq> [] then push P k (JObj kvs) [m, md]
                            else push P k (JObj kvs) [m])
          else push P k (JObj kvs) [m])"
  using assms unfolding entryStep_def chosenTimestamp_def push_def Object_keys_def
  by (simp split: option.splits)

lemma typeof_object_iff: "typeof v = ''object'' \<and> \<not> isArray v \<and> truthy v \<longleftrightarrow> (\<exists>kvs. v = JObj kvs)"
  by (cases v) simp_all

lemma push_Inr_iff:
  "push P k entry rest = Inr (t, k') \<longleftrightarrow>
     (\<exists>ts. toStringJ P (fst (chosenTimestamp P k entry)) = Inr ts \<and> t = JStr ts # rest
           \<and> k' = snd (chosenTimestamp P k entry))"
  unfolding push_def tuple_def by (auto split: sum.splits)

lemma entryStep_shape:
  assumes "entryStep P k entry = Inr (t, k')"
  shows "\<exists>m ts. getProp entry ''message'' = Inr (Some m) \<and> truthy m
           \<and> toStringJ P (fst (chosenTimestamp P k entry)) = Inr ts
           \<and> k' = snd (chosenTimestamp P k entry)
           \<and> (if hasKeys entry
               then \<exists>md. getProp entry ''metadata'' = Inr (Some md) \<and> t = [JStr ts, m, md]
               else t = [JStr ts, m])"
proof -
  have "entry \<noteq> JNull" using assms by (auto simp: entryStep_null)
  moreover have "hasMessage entry"
    using assms entryStep_no_message [OF \<open>entry \<noteq> JNull\<close>, of P k] by auto
  ultimately obtain kvs m where e: "entry = JObj kvs" and m: "map_of kvs ''message'' = Some m" "truthy m"
    by (auto elim: hasMessage_cases)
  note eq = entryStep_JObj [OF m, of P k]
  show ?thesis
  proof (cases "map_of kvs ''metadata''")
    case None
    with assms eq show ?thesis
      by (auto simp: e m hasKeys_def push_Inr_iff)
  next
    case (Some md)
    show ?thesis
    proof (cases md)
      case (JObj mkvs)
      with assms eq Some show ?thesis
        by (cases "mkvs = []") (auto simp: e m hasKeys_def push_Inr_iff split: option.splits)
    qed (use assms eq Some in \<open>auto simp: e m hasKeys_def push_Inr_iff split: if_splits\<close>)
  qed
qed

lemma chosenTimestamp_printable:
  assumes "timestampOk entry" "entry \<noteq> JNull"
  shows "\<exists>ts. toStringJ P (fst (chosenTimestamp P k entry)) = Inr ts"
proof (cases "getProp entry ''timestamp''")
  case (Inl e)
  with assms show ?thesis by (cases entry) auto
next
  case (Inr tsField)
  show ?thesis
  proof (cases tsField)
    case None
    with Inr show ?thesis by (simp add: chosenTimestamp_def)
  next
    case (Some t)
    with Inr assms(1) show ?thesis
      by (cases "truthy t") (simp_all add: chosenTimestamp_def timestampOk_def toStringJ_printable(1))
  qed
qed

lemma entryStep_valid:
  assumes "validEntry entry"
  shows "\<exists>t k'. entryStep P k entry = Inr (t, k')"
proof -
  from assms have hm: "hasMessage entry" and mo: "metadataOk entry" and tok: "timestampOk entry"
    by (simp_all add: validEntry_def)
  from hm obtain kvs m where e: "entry = JObj kvs" and m: "map_of kvs ''message'' = Some m" "truthy m"
    by (rule hasMessage_cases)
  from chosenTimestamp_printable [OF tok, of P k] e obtain ts where
    ts: "toStringJ P (fst (chosenTimestamp P k (JObj kvs))) = Inr ts" by auto
  have ok: "\<exists>t k'. push P k (JObj kvs) rest = Inr (t, k')" for rest
    using ts by (simp add: push_Inr_iff)
  note eq = entryStep_JObj [OF m, of P k]
  show ?thesis
  proof (cases "map_of kvs ''metadata''")
    case None
    with eq ok show ?thesis by (simp add: e)
  next
    case (Some md)
    show ?thesis
    proof (cases "truthy md")
      case False
      with eq ok Some show ?thesis by (simp add: e)
    next
      case True
      with mo Some have "flatObject md" by (simp add: metadataOk_def e)
      then obtain mkvs where md: "md = JObj mkvs" and flat: "list_all (\<lambda>(key, v). scalar v) mkvs"
        by (cases md) simp_all
      from flat have "firstNested mkvs = None" by (simp add: firstNested_None_iff)
      with eq ok Some md show ?thesis by (simp add: e)
    qed
  qed
qed

lemma entryStep_Inr_valid:
  assumes "entryStep P k entry = Inr (t, k')"
  shows "validEntry entry"
proof -
  have nn: "entry \<noteq> JNull" using assms by (auto simp: entryStep_null)
  moreover have hm: "hasMessage entry"
    using assms entryStep_no_message [OF \<open>entry \<noteq> JNull\<close>, of P k] by auto
  ultimately obtain kvs m where e: "entry = JObj kvs" and m: "map_of kvs ''message'' = Some m" "truthy m"
    by (auto elim: hasMessage_cases)
  note eq = entryStep_JObj [OF m, of P k]
  from entryStep_shape [OF assms] obtain ts where
    ts: "toStringJ P (fst (chosenTimestamp P k entry)) = Inr ts" by auto
  have tok: "timestampOk entry"
  proof (cases "map_of kvs ''timestamp''")
    case None
    then show ?thesis by (simp add: timestampOk_def e)
  next
    case (Some t)
    with ts show ?thesis
      using toStringJ_printable(1) [of P t]
      by (cases "truthy t") (auto simp: timestampOk_def e chosenTimestamp_def)
  qed
  have mo: "metadataOk entry"
  proof (cases "map_of kvs ''metadata''")
    case None
    then show ?thesis by (simp add: metadataOk_def e)
  next
    case (Some md)
    show ?thesis
    proof (cases "truthy md")
      case False
      with Some show ?thesis by (simp add: metadataOk_def e)
    next
      case True
      with assms eq Some obtain mkvs where "md = JObj mkvs" "firstNested mkvs = None"
        by (cases md) (auto simp: e split: if_splits option.splits)
      with Some show ?thesis by (simp add: metadataOk_def e firstNested_None_iff)
    qed
  qed
  from hm mo tok show ?thesis by (simp add: validEntry_def)
qed

subsection \<open>The loop and the handler\<close>

lemma buildValues_append:
  "buildValues P k (pre @ post) vals =
     (case buildValues P k pre vals of
        Inl a \<Rightarrow> Inl a
      | Inr (vs, k') \<Rightarrow> buildValues P k' post vs)"
  by (induction pre arbitrary: k vals) (auto split: sum.splits)

lemma buildValues_abort_at:
  assumes "buildValues P k pre vals = Inr (vs, k')" "entryStep P k' entry = Inl a"
  shows "buildValues P k (pre @ entry # post) vals = Inl a"
  using assms by (simp add: buildValues_append)

lemma buildValues_Inr:
  assumes "buildValues P k logs vals = Inr (vs, k')"
  shows "\<exists>ts. vs = vals @ ts \<and> list_all2 (\<lambda>entry t. \<exists>j j'. entryStep P j entry = Inr (t, j')) logs ts"
  using assms
proof (induction logs arbitrary: k vals)
  case Nil
  then show ?case by simp
next
  case (Cons entry logs)
  from Cons.prems obtain t j where step: "entryStep P k entry = Inr (t, j)"
    and rest: "buildValues P j logs (vals @ [t]) = Inr (vs, k')"
    by (auto split: sum.splits)
  from Cons.IH [OF rest] obtain ts where
    "vs = (vals @ [t]) @ ts" "list_all2 (\<lambda>entry t. \<exists>j j'. entryStep P j entry = Inr (t, j')) logs ts"
    by blast
  with step show ?case by (intro exI [of _ "t # ts"]) auto
qed

lemma buildValues_valid:
  assumes "list_all validEntry logs"
  shows "\<exists>vs k'. buildValues P k logs vals = Inr (vs, k')"
  using assms
proof (induction logs arbitrary: k vals)
  case Nil
  then show ?case by simp
next
  case (Cons entry logs)
  then have "validEntry entry" "list_all validEntry logs" by simp_all
  from entryStep_valid [OF this(1), of P k] obtain t j where "entryStep P k entry = Inr (t, j)"
    by blast
  with Cons.IH [OF \<open>list_all validEntry logs\<close>, of j "vals @ [t]"] show ?case by simp
qed

lemma handleRequest_try:
  assumes "method request = ''POST''" "configured env"
  shows "handleRequest P request env = tryBlock P request env"
  using assms by (simp add: handleRequest_def configured_def)

lemma tryBlock_parsed:
  assumes "body request \<noteq> []" "JSON_parse P (body request) = Inr data"
  shows "tryBlock P request env =
     (case buildValues P 0 (logsOf data) [] of
        Inl (Reject r) \<Rightarrow> ([ReadBody], r)
      | Inl (Throw e) \<Rightarrow> ([ReadBody], caught P e)
      | Inr (vals, k) \<Rightarrow> dispatch P request env vals)"
  using assms by (simp add: tryBlock_def)

lemma dispatch_effects:
  assumes "Fetch rq \<in> set (fst (dispatch P request env vals))"
  shows "\<exists>labels0. buildStream (searchParams request) [] = Inr labels0 \<and>
           rq = lokiRequest P env
                  (AList.update ''ip'' (clientIP request)
                     (AList.update ''proxy'' ''miti-loki'' labels0)) vals"
  using assms unfolding dispatch_def
  by (auto simp: Let_def split: sum.splits)

lemma handleRequest_effects:
  assumes "Fetch rq \<in> set (fst (handleRequest P request env))"
  shows "\<exists>data vals k labels0.
           method request = ''POST'' \<and> configured env \<and> body request \<noteq> [] \<and>
           JSON_parse P (body request) = Inr data \<and>
           buildValues P 0 (logsOf data) [] = Inr (vals, k) \<and>
           buildStream (searchParams request) [] = Inr labels0 \<and>
           rq = lokiRequest P env
                  (AList.update ''ip'' (clientIP request)
                     (AList.update ''proxy'' ''miti-loki'' labels0)) vals"
proof -
  from assms have post: "method request = ''POST''" and conf: "configured env"
    by (auto simp: handleRequest_def configured_def split: if_splits)
  with assms have t: "Fetch rq \<in> set (fst (tryBlock P request env))"
    by (simp add: handleRequest_try)
  then have nonempty: "body request \<noteq> []"
    by (auto simp: tryBlock_def split: if_splits)
  from t nonempty obtain data where parsed: "JSON_parse P (body request) = Inr data"
    by (cases "JSON_parse P (body request)") (auto simp: tryBlock_def)
  from t obtain vals k where built: "buildValues P 0 (logsOf data) [] = Inr (vals, k)"
    and d: "Fetch rq \<in> set (fst (dispatch P request env vals))"
    unfolding tryBlock_parsed [OF nonempty parsed]
    by (auto split: sum.splits abort.splits)
  from dispatch_effects [OF d] post conf nonempty parsed built show ?thesis by blast
qed

lemma handleRequest_invalid_label:
  assumes "method request = ''POST''" "configured env" "body request \<noteq> []"
    and "JSON_parse P (body request) = Inr data"
    and "list_all validEntry (logsOf data)"
    and "searchParams request = pre @ (key, v) # post"
    and "list_all validateLabelName (map fst pre)" "\<not> validateLabelName key"
  shows "handleRequest P request env = ([ReadBody], invalidLabel key)"
proof -
  from buildValues_valid [OF assms(5), of P 0 "[]"] obtain vs k where
    "buildValues P 0 (logsOf data) [] = Inr (vs, k)" by blast
  then have "handleRequest P request env = dispatch P request env vs"
    by (simp add: handleRequest_try [OF assms(1,2)] tryBlock_parsed [OF assms(3,4)])
  also have "\<dots> = ([ReadBody], invalidLabel key)"
    by (simp add: dispatch_def assms(6) buildStream_reject_at [OF assms(7,8)])
  finally show ?thesis .
qed

lemma buildValues_valid_iff:
  "(\<exists>vs k'. buildValues P k logs vals = Inr (vs, k')) \<longleftrightarrow> list_all validEntry logs"
proof
  assume "\<exists>vs k'. buildValues P k logs vals = Inr (vs, k')"
  then obtain vs k' where "buildValues P k logs vals = Inr (vs, k')" by blast
  from buildValues_Inr [OF this] obtain ts where
    "list_all2 (\<lambda>entry t. \<exists>j j'. entryStep P j entry = Inr (t, j')) logs ts" by blast
  then show "list_all validEntry logs"
    by (induction rule: list_all2_induct) (auto dest: entryStep_Inr_valid)
qed (rule buildValues_valid)

lemma handleRequest_abort_at:
  assumes "method request = ''POST''" "configured env" "body request \<noteq> []"
    and "JSON_parse P (body request) = Inr data"
    and "logsOf data = pre @ entry # post"
    and "list_all validEntry pre"
    and "\<And>k. entryStep P k entry = Inl a"
  shows "handleRequest P request env =
           ([ReadBody], case a of Reject r \<Rightarrow> r | Throw e \<Rightarrow> caught P e)"
proof -
  from buildValues_valid [OF assms(6), of P 0 "[]"] obtain vs k where
    "buildValues P 0 pre [] = Inr (vs, k)" by blast
  from buildValues_abort_at [OF this assms(7) [of k], of post]
  have "buildValues P 0 (logsOf data) [] = Inl a" by (simp add: assms(5))
  then show ?thesis
    by (simp add: handleRequest_try [OF assms(1,2)] tryBlock_parsed [OF assms(3,4)]
          split: abort.splits)
qed

lemma handleRequest_valid:
  assumes "method request = ''POST''" "configured env" "body request \<noteq> []"
    and "JSON_parse P (body request) = Inr data"
    and "buildValues P 0 (logsOf data) [] = Inr (vals, k)"
  shows "handleRequest P request env = dispatch P request env vals"
  using assms(5)
  by (simp add: handleRequest_try [OF assms(1,2)] tryBlock_parsed [OF assms(3,4)])

lemma push_not_Reject: "push P k entry rest \<noteq> Inl (Reject r)"
  by (simp add: push_def tuple_def split: sum.splits)

lemma entryStep_Reject_400:
  assumes "entryStep P k entry = Inl (Reject r)"
  shows "status r = 400"
proof (cases "entry = JNull")
  case True
  with assms show ?thesis by (simp add: entryStep_null)
next
  case False
  show ?thesis
  proof (cases "hasMessage entry")
    case False
    with \<open>entry \<noteq> JNull\<close> assms show ?thesis
      by (auto simp: entryStep_no_message messageRequired_def plainResponse_def)
  next
    case True
    then obtain kvs m where e: "entry = JObj kvs" and m: "map_of kvs ''message'' = Some m" "truthy m"
      by (rule hasMessage_cases)
    from assms show ?thesis
      unfolding e entryStep_JObj [OF m]
      by (auto simp: push_not_Reject metadataNotObject_def metadataNested_def plainResponse_def
          split: option.splits if_splits)
  qed
qed

lemma buildValues_Reject_400:
  "buildValues P k logs vals = Inl (Reject r) \<Longrightarrow> status r = 400"
proof (induction logs arbitrary: k vals)
  case Nil
  then show ?case by simp
next
  case (Cons entry logs)
  then show ?case
    by (auto split: sum.splits dest: entryStep_Reject_400)
qed

lemma invalid_entry_never_forwarded:
  assumes "method request = ''POST''" "configured env" "body request \<noteq> []"
    and "JSON_parse P (body request) = Inr data"
    and "\<not> list_all validEntry (logsOf data)"
  shows "fst (handleRequest P request env) = [ReadBody]
         \<and> (status (snd (handleRequest P request env)) = 400
              \<or> (\<exists>e. snd (handleRequest P request env) = caught P e))"
proof -
  from assms(5) obtain a where a: "buildValues P 0 (logsOf data) [] = Inl a"
    using buildValues_valid_iff [of P 0 "logsOf data" "[]"]
    by (cases "buildValues P 0 (logsOf data) []") auto
  show ?thesis
  proof (cases a)
    case (Reject r)
    with a buildValues_Reject_400 [of P 0 "logsOf data" "[]" r] show ?thesis
      by (simp add: handleRequest_try [OF assms(1,2)] tryBlock_parsed [OF assms(3,4)])
  next
    case (Throw e)
    with a show ?thesis
      by (auto simp: handleRequest_try [OF assms(1,2)] tryBlock_parsed [OF assms(3,4)])
  qed
qed

lemma chosenTimestamp_falsy:
  assumes "map_of kvs ''timestamp'' = Some t" "\<not> truthy t"
  shows "chosenTimestamp P k (JObj kvs) = (JStr (Date_now_text P k), Suc k)"
    and "chosenTimestamp P k (JObj (AList.delete ''timestamp'' kvs))
           = (JStr (Date_now_text P k), Suc k)"
  using assms by (simp_all add: chosenTimestamp_def delete_conv')

lemma entryStep_ignores_falsy_timestamp:
  assumes "map_of kvs ''timestamp'' = Some t" "\<not> truthy t"
  shows "entryStep P k (JObj kvs) = entryStep P k (JObj (AList.delete ''timestamp'' kvs))"
proof (cases "hasMessage (JObj kvs)")
  case False
  then have "\<not> hasMessage (JObj (AList.delete ''timestamp'' kvs))"
    by (simp add: hasMessage_def delete_conv')
  with False show ?thesis by (simp add: entryStep_no_message)
next
  case True
  then obtain m where m: "map_of kvs ''message'' = Some m" "truthy m"
    by (auto elim: hasMessage_cases)
  then have m': "map_of (AList.delete ''timestamp'' kvs) ''message'' = Some m"
    by (simp add: delete_conv')
  have md: "map_of (AList.delete ''timestamp'' kvs) ''metadata'' = map_of kvs ''metadata''"
    by (simp add: delete_conv')
  have p: "push P k (JObj (AList.delete ''timestamp'' kvs)) rest = push P k (JObj kvs) rest"
    for rest
    by (simp add: push_def chosenTimestamp_falsy [OF assms])
  show ?thesis
    by (simp only: entryStep_JObj [OF m] entryStep_JObj [OF m' m(2)] md p)
qed

lemma clientIP_resolved: "clientIP request = resolvedIP request"
  unfolding clientIP_def resolvedIP_def
  by (auto split: option.splits list.splits)

lemma firstNested_at:
  assumes "list_all (\<lambda>(k, w). scalar w) kpre" "\<not> scalar v"
  shows "firstNested (kpre @ (key, v) # kpost) = Some key"
  using assms
proof (induction kpre)
  case Nil
  then show ?case by (cases v) simp_all
next
  case (Cons kw kpre)
  obtain k w where "kw = (k, w)" by (cases kw)
  with Cons show ?case by (cases w) simp_all
qed

lemma entryStep_metadata:
  assumes "hasMessage entry" "getProp entry ''metadata'' = Inr (Some md)" "truthy md"
  shows "typeof md \<noteq> ''object'' \<or> isArray md \<Longrightarrow>
           entryStep P k entry = Inl (Reject metadataNotObject)"
    and "md = JObj kvs \<Longrightarrow> firstNested kvs = Some key \<Longrightarrow>
           entryStep P k entry = Inl (Reject (metadataNested key))"
    and "flatObject md \<Longrightarrow> entryStep P k entry \<noteq> Inl (Reject r)"
proof -
  from assms(1) obtain ekvs m where e: "entry = JObj ekvs"
    and m: "map_of ekvs ''message'' = Some m" "truthy m"
    by (rule hasMessage_cases)
  from assms(2) have md: "map_of ekvs ''metadata'' = Some md" by (simp add: e)
  note eq = entryStep_JObj [OF m, of P k, unfolded md option.case, folded e]
  show "entryStep P k entry = Inl (Reject metadataNotObject)"
    if "typeof md \<noteq> ''object'' \<or> isArray md"
    using that assms(3) by (simp add: eq)
  show "entryStep P k entry = Inl (Reject (metadataNested key))"
    if "md = JObj kvs" "firstNested kvs = Some key"
    using that by (simp add: eq)
  show "entryStep P k entry \<noteq> Inl (Reject r)" if "flatObject md"
  proof -
    from that obtain kvs where "md = JObj kvs" "firstNested kvs = None"
      by (cases md) (simp_all add: firstNested_None_iff)
    then show ?thesis by (simp add: eq push_not_Reject)
  qed
qed

lemma map_of_system_labels:
  "map_of (AList.update ''ip'' ip (AList.update ''proxy'' ''miti-loki'' labels0)) ''proxy''
     = Some ''miti-loki''"
  "map_of (AList.update ''ip'' ip (AList.update ''proxy'' ''miti-loki'' labels0)) ''ip'' = Some ip"
  by (simp_all add: update_conv')

lemma chosenTimestamp_cases:
  "(\<forall>tv. getProp entry ''timestamp'' = Inr (Some tv) \<and> truthy tv \<longrightarrow>
        chosenTimestamp P k entry = (tv, k))
   \<and> (getProp entry ''timestamp'' = Inr None
        \<or> (\<exists>tv. getProp entry ''timestamp'' = Inr (Some tv) \<and> \<not> truthy tv) \<longrightarrow>
        chosenTimestamp P k entry = (JStr (Date_now_text P k), Suc k))"
  by (auto simp: chosenTimestamp_def)

lemma entryStep_ignores_falsy_metadata:
  assumes "map_of kvs ''metadata'' = Some md" "\<not> truthy md"
  shows "entryStep P k (JObj kvs) = entryStep P k (JObj (AList.delete ''metadata'' kvs))"
proof (cases "hasMessage (JObj kvs)")
  case False
  then have "\<not> hasMessage (JObj (AList.delete ''metadata'' kvs))"
    by (simp add: hasMessage_def delete_conv')
  with False show ?thesis by (simp add: entryStep_no_message)
next
  case True
  then obtain m where m: "map_of kvs ''message'' = Some m" "truthy m"
    by (auto elim: hasMessage_cases)
  then have m': "map_of (AList.delete ''metadata'' kvs) ''message'' = Some m"
    by (simp add: delete_conv')
  have md: "map_of (AList.delete ''metadata'' kvs) ''metadata'' = None"
    by (simp add: delete_conv')
  have p: "push P k (JObj (AList.delete ''metadata'' kvs)) rest = push P k (JObj kvs) rest"
    for rest
    by (simp add: push_def chosenTimestamp_def delete_conv')
  show ?thesis
    by (simp add: entryStep_JObj [OF m] entryStep_JObj [OF m' m(2)] md p assms)
qed

lemma entryStep_falsy_metadata_not_Reject:
  assumes "hasMessage entry" "getProp entry ''metadata'' = Inr (Some md)" "\<not> truthy md"
  shows "entryStep P k entry \<noteq> Inl (Reject r)"
proof -
  from assms(1) obtain ekvs m where e: "entry = JObj ekvs"
    and m: "map_of ekvs ''message'' = Some m" "truthy m"
    by (rule hasMessage_cases)
  from assms(2) have md: "map_of ekvs ''metadata'' = Some md" by (simp add: e)
  show ?thesis
    by (simp add: e entryStep_JObj [OF m] md assms(3) push_not_Reject)
qed

section \<open>The claims\<close>

text \<open>
  Claim C1, as stated, fails: a non-empty message does not make an entry acceptable. The
  body \<^verbatim>\<open>[{"message":"a","metadata":["x"]}]\<close> is non-empty JSON, its only entry has the
  non-empty message \<^verbatim>\<open>a\<close>, and the loop ends in the 400 response for the metadata: no
  tuple is produced for the entry and nothing is forwarded.
\<close>

theorem message_alone_counterexample:
  \<open>hasMessage (JObj [(''message'', JStr ''a''), (''metadata'', JArr [JStr ''x''])])
   \<and> buildValues (examplePlatform (JArr [JObj [(''message'', JStr ''a''), (''metadata'', JArr [JStr ''x''])]]))
        0 [JObj [(''message'', JStr ''a''), (''metadata'', JArr [JStr ''x''])]] []
      = Inl (Reject metadataNotObject)
   \<and> handleRequest
        (examplePlatform (JArr [JObj [(''message'', JStr ''a''), (''metadata'', JArr [JStr ''x''])]]))
        (exampleRequest ''[{"message":"a","metadata":["x"]}]'') exampleEnv
      = ([ReadBody], metadataNotObject)
   \<and> status metadataNotObject = 400\<close>
  by (simp add: hasMessage_def handleRequest_def tryBlock_def exampleRequest_def exampleEnv_def
      examplePlatform_def entryStep_def metadataNotObject_def plainResponse_def)

text \<open>
  Claim C1, amended. For every POST with the configuration in place whose body is
  non-empty and parses to an array (any other value is treated as a one-element array) in
  which every entry is valid (a non-empty message; metadata that is absent, falsy or a
  non-array object holding scalars only; a timestamp that is absent, falsy or printable),
  the loop produces a values array with exactly one tuple per entry, in the order of the
  entries: the tuple at index \<open>i\<close> is what the loop body yields for entry \<open>i\<close> and
  carries that entry's message. The handler goes on to dispatch with this array.
\<close>

theorem one_tuple_per_valid_entry:
  assumes "method request = ''POST''" "configured env" "body request \<noteq> []"
    and "JSON_parse P (body request) = Inr data"
    and "list_all validEntry (logsOf data)"
  shows "\<exists>vals k.
           buildValues P 0 (logsOf data) [] = Inr (vals, k)
           \<and> handleRequest P request env = dispatch P request env vals
           \<and> length vals = length (logsOf data)
           \<and> (\<forall>i<length (logsOf data).
                 getProp (logsOf data ! i) ''message'' = Inr (Some (vals ! i ! 1))
                 \<and> (\<exists>j j'. entryStep P j (logsOf data ! i) = Inr (vals ! i, j')))"
proof -
  from buildValues_valid [OF assms(5), of P 0 "[]"] obtain vals k where
    built: "buildValues P 0 (logsOf data) [] = Inr (vals, k)" by blast
  from buildValues_Inr [OF built] have
    all2: "list_all2 (\<lambda>entry t. \<exists>j j'. entryStep P j entry = Inr (t, j')) (logsOf data) vals"
    by simp
  then have len: "length vals = length (logsOf data)"
    by (simp add: list_all2_lengthD)
  have each: "getProp (logsOf data ! i) ''message'' = Inr (Some (vals ! i ! 1))
              \<and> (\<exists>j j'. entryStep P j (logsOf data ! i) = Inr (vals ! i, j'))"
    if "i < length (logsOf data)" for i
  proof -
    from all2 that obtain j j' where step: "entryStep P j (logsOf data ! i) = Inr (vals ! i, j')"
      by (auto simp: list_all2_conv_all_nth)
    from entryStep_shape [OF step] have
      "getProp (logsOf data ! i) ''message'' = Inr (Some (vals ! i ! 1))"
      by (auto split: if_splits)
    with step show ?thesis by blast
  qed
  from built handleRequest_valid [OF assms(1-4) built] len each show ?thesis by blast
qed

theorem one_tuple_per_valid_entry_witness:
  \<open>list_all validEntry
     [JObj [(''message'', JStr ''a''), (''metadata'', JObj [(''level'', JStr ''info'')])],
      JObj [(''message'', JStr ''b'')]]
   \<and> (\<exists>vals k.
         buildValues
           (examplePlatform
              (JArr [JObj [(''message'', JStr ''a''), (''metadata'', JObj [(''level'', JStr ''info'')])],
                     JObj [(''message'', JStr ''b'')]]))
           0
           [JObj [(''message'', JStr ''a''), (''metadata'', JObj [(''level'', JStr ''info'')])],
            JObj [(''message'', JStr ''b'')]] []
           = Inr (vals, k)
         \<and> length vals = 2
         \<and> vals ! 0 ! 1 = JStr ''a'' \<and> vals ! 1 ! 1 = JStr ''b'')\<close>
proof -
  let ?doc = "JArr [JObj [(''message'', JStr ''a''), (''metadata'', JObj [(''level'', JStr ''info'')])],
                    JObj [(''message'', JStr ''b'')]]"
  have v: "list_all validEntry (logsOf ?doc)"
    by (simp add: validEntry_def hasMessage_def metadataOk_def timestampOk_def)
  have b: \<open>body (exampleRequest ''[{"message":"a","metadata":{"level":"info"}},{"message":"b"}]'') \<noteq> []\<close>
    by (simp add: exampleRequest_def)
  from one_tuple_per_valid_entry [of
      \<open>exampleRequest ''[{"message":"a","metadata":{"level":"info"}},{"message":"b"}]''\<close>
      exampleEnv "examplePlatform ?doc" ?doc, OF _ _ b _ v]
  obtain vals k where
    "buildValues (examplePlatform ?doc) 0 (logsOf ?doc) [] = Inr (vals, k)"
    "length vals = length (logsOf ?doc)"
    "\<forall>i<length (logsOf ?doc). getProp (logsOf ?doc ! i) ''message'' = Inr (Some (vals ! i ! 1))"
    by (auto simp: exampleRequest_def exampleEnv_def examplePlatform_def configured_def)
  moreover from this(3) [rule_format, of 0] this(3) [rule_format, of 1]
  have "vals ! 0 ! 1 = JStr ''a''" "vals ! 1 ! 1 = JStr ''b''"
    by simp_all
  ultimately show ?thesis using v by auto
qed

text \<open>
  Claim C2. For every valid entry the loop body produces a tuple; it has three elements
  (timestamp text, message, metadata) exactly when the entry's metadata is an object with
  at least one key, and two elements (timestamp text, message) otherwise, in particular
  when the metadata is absent or the empty object. The first element is the timestamp:
  the text that \<^verbatim>\<open>toString()\<close> gives for the entry's timestamp when that is truthy, and
  the text of the clock read at that moment when the timestamp is absent or falsy. The
  second is the entry's message and the third, when there is one, the entry's metadata.
\<close>

theorem tuple_arity:
  assumes "validEntry entry"
  shows "\<exists>t k' ts m.
           entryStep P k entry = Inr (t, k')
           \<and> getProp entry ''message'' = Inr (Some m)
           \<and> (hasKeys entry \<longrightarrow>
                (\<exists>md. getProp entry ''metadata'' = Inr (Some md) \<and> t = [JStr ts, m, md]))
           \<and> (\<not> hasKeys entry \<longrightarrow> t = [JStr ts, m])
           \<and> (length t = 3 \<longleftrightarrow> hasKeys entry)
           \<and> (length t = 2 \<longleftrightarrow> \<not> hasKeys entry)
           \<and> (getProp entry ''metadata'' = Inr None
                \<or> getProp entry ''metadata'' = Inr (Some (JObj [])) \<longrightarrow> length t = 2)
           \<and> (\<forall>tv. getProp entry ''timestamp'' = Inr (Some tv) \<and> truthy tv \<longrightarrow>
                 toStringJ P tv = Inr ts \<and> k' = k)
           \<and> (getProp entry ''timestamp'' = Inr None
                \<or> (\<exists>tv. getProp entry ''timestamp'' = Inr (Some tv) \<and> \<not> truthy tv) \<longrightarrow>
                 ts = Date_now_text P k \<and> k' = Suc k)"
proof -
  from entryStep_valid [OF assms, of P k] obtain t k' where
    step: "entryStep P k entry = Inr (t, k')" by blast
  from entryStep_shape [OF step] obtain m ts where
    m: "getProp entry ''message'' = Inr (Some m)"
    and ts: "toStringJ P (fst (chosenTimestamp P k entry)) = Inr ts"
    and k': "k' = snd (chosenTimestamp P k entry)"
    and shape: "if hasKeys entry
                then \<exists>md. getProp entry ''metadata'' = Inr (Some md) \<and> t = [JStr ts, m, md]
                else t = [JStr ts, m]"
    by blast
  note ct = chosenTimestamp_cases [of entry P k]
  have given: "toStringJ P tv = Inr ts \<and> k' = k"
    if "getProp entry ''timestamp'' = Inr (Some tv) \<and> truthy tv" for tv
  proof -
    from ct that have "chosenTimestamp P k entry = (tv, k)" by blast
    with ts k' show ?thesis by simp
  qed
  have defaulted: "ts = Date_now_text P k \<and> k' = Suc k"
    if "getProp entry ''timestamp'' = Inr None
        \<or> (\<exists>tv. getProp entry ''timestamp'' = Inr (Some tv) \<and> \<not> truthy tv)"
  proof -
    from ct that have "chosenTimestamp P k entry = (JStr (Date_now_text P k), Suc k)" by blast
    with ts k' show ?thesis by simp
  qed
  have none: "getProp entry ''metadata'' = Inr None
                \<or> getProp entry ''metadata'' = Inr (Some (JObj [])) \<Longrightarrow> \<not> hasKeys entry"
    by (auto simp: hasKeys_def)
  have arity: "(hasKeys entry \<longrightarrow>
                (\<exists>md. getProp entry ''metadata'' = Inr (Some md) \<and> t = [JStr ts, m, md]))
           \<and> (\<not> hasKeys entry \<longrightarrow> t = [JStr ts, m])
           \<and> (length t = 3 \<longleftrightarrow> hasKeys entry)
           \<and> (length t = 2 \<longleftrightarrow> \<not> hasKeys entry)
           \<and> (getProp entry ''metadata'' = Inr None
                \<or> getProp entry ''metadata'' = Inr (Some (JObj [])) \<longrightarrow> length t = 2)"
  proof (cases "hasKeys entry")
    case True
    with shape obtain md where "getProp entry ''metadata'' = Inr (Some md)" "t = [JStr ts, m, md]"
      by auto
    with True none show ?thesis by auto
  next
    case False
    with shape have "t = [JStr ts, m]" by simp
    with False show ?thesis by auto
  qed
  from step m arity given defaulted show ?thesis by blast
qed

theorem tuple_arity_witness:
  "validEntry (JObj [(''message'', JStr ''a''), (''metadata'', JObj [(''level'', JStr ''info'')])])
   \<and> hasKeys (JObj [(''message'', JStr ''a''), (''metadata'', JObj [(''level'', JStr ''info'')])])
   \<and> (\<exists>k'. entryStep (examplePlatform JNull) 0
           (JObj [(''message'', JStr ''a''), (''metadata'', JObj [(''level'', JStr ''info'')])])
         = Inr ([JStr ''1762170000000000000'', JStr ''a'', JObj [(''level'', JStr ''info'')]], k'))"
proof -
  let ?e = "JObj [(''message'', JStr ''a''), (''metadata'', JObj [(''level'', JStr ''info'')])]"
  have v: "validEntry ?e"
    by (simp add: validEntry_def hasMessage_def metadataOk_def timestampOk_def)
  have h: "hasKeys ?e"
    by (simp add: hasKeys_def)
  have absent: "getProp ?e ''timestamp'' = Inr None" by simp
  have now: "Date_now_text (examplePlatform JNull) 0 = ''1762170000000000000''"
    by (simp add: examplePlatform_def)
  from tuple_arity [OF v, of "examplePlatform JNull" 0] obtain t k' ts m where
    step: "entryStep (examplePlatform JNull) 0 ?e = Inr (t, k')"
    and m: "getProp ?e ''message'' = Inr (Some m)"
    and three: "hasKeys ?e \<longrightarrow> (\<exists>md. getProp ?e ''metadata'' = Inr (Some md) \<and> t = [JStr ts, m, md])"
    and dflt: "getProp ?e ''timestamp'' = Inr None
                \<or> (\<exists>tv. getProp ?e ''timestamp'' = Inr (Some tv) \<and> \<not> truthy tv) \<longrightarrow>
                 ts = Date_now_text (examplePlatform JNull) 0 \<and> k' = Suc 0"
    by blast
  from dflt absent now have ts: "ts = ''1762170000000000000''" by simp
  from m have "m = JStr ''a''" by simp
  moreover from three h obtain md where "getProp ?e ''metadata'' = Inr (Some md)" "t = [JStr ts, m, md]"
    by blast
  ultimately have "t = [JStr ''1762170000000000000'', JStr ''a'', JObj [(''level'', JStr ''info'')]]"
    using ts by simp
  with step v h show ?thesis by blast
qed

text \<open>
  Claim C3 at the body \<^verbatim>\<open>[null]\<close>. The only entry has no message, the body has been
  read and nothing has been forwarded, but the response is the 500 of the
  \<^verbatim>\<open>catch\<close> block, not the 400 that every other entry without a message receives
  (see \<open>entryStep_no_message\<close>), as the body \<^verbatim>\<open>[{}]\<close> does here. That a submission
  with an entry that is not valid is never forwarded is \<open>invalid_entry_never_forwarded\<close>.
\<close>

theorem null_entry_evaluated:
  \<open>handleRequest (examplePlatform (JArr [JNull])) (exampleRequest ''[null]'') exampleEnv
     = ([ReadBody],
        \<lparr>rbody = Some ''Error forwarding to Loki: Cannot read properties of null'',
         status = 500, statusText = [],
         headers = [(''Access-Control-Allow-Origin'', ''*'')]\<rparr>)
   \<and> \<not> hasMessage JNull
   \<and> handleRequest (examplePlatform (JArr [JObj []])) (exampleRequest ''[{}]'') exampleEnv
     = ([ReadBody],
        \<lparr>rbody = Some ''Each log entry must have a "message" field'',
         status = 400, statusText = [],
         headers = [(''Access-Control-Allow-Origin'', ''*'')]\<rparr>)\<close>
  by (simp add: handleRequest_def tryBlock_def exampleRequest_def exampleEnv_def
      examplePlatform_def entryStep_def caught_def plainResponse_def hasMessage_def
      messageRequired_def)

theorem null_entry_evaluated_witness:
  \<open>fst (handleRequest (examplePlatform (JArr [JNull])) (exampleRequest ''[null]'') exampleEnv)
     = [ReadBody]
   \<and> status (snd (handleRequest (examplePlatform (JArr [JNull])) (exampleRequest ''[null]'')
                     exampleEnv)) = 500\<close>
  using null_entry_evaluated by simp

text \<open>
  Claim C4. A label name taken from the query string is accepted exactly when it matches
  the grammar \<^verbatim>\<open>[a-zA-Z_:][a-zA-Z0-9_:]*\<close> and does not both start and end with an
  underscore. The names \<^verbatim>\<open>_foo_\<close> and \<^verbatim>\<open>1foo\<close> are rejected, and \<^verbatim>\<open>foo_bar\<close>,
  \<^verbatim>\<open>_foo\<close> and \<^verbatim>\<open>foo:bar\<close> are accepted. A POST that reaches the label loop (the
  configuration is there and every entry of the body is valid) and whose first
  unacceptable parameter name is \<open>key\<close> is answered with status 400 and the message
  naming \<open>key\<close>, and only the body has been read.
\<close>

theorem label_name_grammar:
  "(validateLabelName name \<longleftrightarrow>
      labelGrammar name \<and> \<not> (hd name = CHR ''_'' \<and> last name = CHR ''_''))
   \<and> \<not> validateLabelName ''_foo_'' \<and> \<not> validateLabelName ''1foo''
   \<and> validateLabelName ''foo_bar'' \<and> validateLabelName ''_foo'' \<and> validateLabelName ''foo:bar''
   \<and> (method request = ''POST'' \<and> configured env \<and> body request \<noteq> []
        \<and> JSON_parse P (body request) = Inr data \<and> list_all validEntry (logsOf data)
        \<and> searchParams request = pre @ (key, v) # post
        \<and> list_all validateLabelName (map fst pre) \<and> \<not> validateLabelName key
      \<longrightarrow> handleRequest P request env = ([ReadBody], invalidLabel key)
          \<and> status (invalidLabel key) = 400)"
proof -
  have ex: "\<not> validateLabelName ''_foo_''" "\<not> validateLabelName ''1foo''"
    "validateLabelName ''foo_bar''" "validateLabelName ''_foo''" "validateLabelName ''foo:bar''"
    by (simp_all add: validateLabelName_iff labelStart_def labelRest_def lowerChars_def
        upperChars_def digitChars_def)
  have "status (invalidLabel key) = 400"
    by (simp add: invalidLabel_def plainResponse_def)
  with ex validateLabelName_iff [of name] handleRequest_invalid_label [of request env P data pre key v post]
  show ?thesis by blast
qed

theorem label_name_grammar_witness:
  \<open>validateLabelName ''env'' \<and> \<not> validateLabelName ''1foo''
   \<and> handleRequest (examplePlatform (JObj [(''message'', JStr ''hello'')]))
        ((exampleRequest ''{"message":"hello"}'')\<lparr>searchParams := [(''env'', ''prod''), (''1foo'', ''x'')]\<rparr>)
        exampleEnv
      = ([ReadBody], invalidLabel ''1foo'')
   \<and> status (invalidLabel ''1foo'') = 400\<close>
  using label_name_grammar [of \<open>''env''\<close>
      \<open>(exampleRequest ''{"message":"hello"}'')\<lparr>searchParams := [(''env'', ''prod''), (''1foo'', ''x'')]\<rparr>\<close>
      exampleEnv \<open>examplePlatform (JObj [(''message'', JStr ''hello'')])\<close>
      \<open>JObj [(''message'', JStr ''hello'')]\<close> \<open>[(''env'', ''prod'')]\<close> \<open>''1foo''\<close> \<open>''x''\<close> \<open>[]\<close>]
  by (simp add: exampleRequest_def exampleEnv_def examplePlatform_def configured_def
      validEntry_def hasMessage_def metadataOk_def timestampOk_def
      labelStart_def labelRest_def lowerChars_def upperChars_def digitChars_def)

text \<open>
  Claim C5, as stated, fails: metadata that is present but falsy is not validated. The
  body \<^verbatim>\<open>{"message":"a","metadata":false}\<close> has metadata that is present and is not an
  object, and the entry is accepted and forwarded as a two-element tuple; the response is
  the backend's, not a 400.
\<close>

theorem falsy_metadata_counterexample:
  \<open>getProp (JObj [(''message'', JStr ''a''), (''metadata'', JBool False)]) ''metadata''
     = Inr (Some (JBool False))
   \<and> typeof (JBool False) \<noteq> ''object''
   \<and> handleRequest (examplePlatform (JObj [(''message'', JStr ''a''), (''metadata'', JBool False)]))
        (exampleRequest ''{"message":"a","metadata":false}'') exampleEnv
      = ([ReadBody,
          Fetch (lokiRequest
                   (examplePlatform (JObj [(''message'', JStr ''a''), (''metadata'', JBool False)]))
                   exampleEnv [(''proxy'', ''miti-loki''), (''ip'', ''unknown'')]
                   [[JStr ''1762170000000000000'', JStr ''a'']])],
         \<lparr>rbody = Some [], status = 200, statusText = ''OK'',
          headers = [(''Content-Type'', ''text/plain''),
                     (''Access-Control-Allow-Origin'', ''*''),
                     (''Access-Control-Allow-Methods'', ''POST, OPTIONS''),
                     (''Access-Control-Allow-Headers'', ''Content-Type'')]\<rparr>)\<close>
  by (simp add: handleRequest_def tryBlock_def dispatch_def exampleRequest_def exampleEnv_def
      examplePlatform_def entryStep_def tuple_def clientIP_def relay_def Let_def)

text \<open>
  Claim C5, amended. For every entry that the loop reaches (the entries before it are
  valid) and that has a non-empty message and metadata. When the metadata is truthy:
  metadata that is an array or is not an object is answered with the 400 response
  \<^verbatim>\<open>Metadata must be an object\<close>; metadata whose first value that is an array or an
  object other than \<^verbatim>\<open>null\<close> sits under \<open>key\<close> is answered with the 400 response
  naming \<open>key\<close>; and metadata that is an object holding only strings, numbers, booleans
  and \<^verbatim>\<open>null\<close> is never rejected. When the metadata is present but falsy, it is ignored
  like absent metadata: the entry is never rejected, and the loop body gives exactly the
  result it gives for the same entry without the metadata property.
\<close>

theorem truthy_metadata_validated:
  assumes "method request = ''POST''" "configured env" "body request \<noteq> []"
    and "JSON_parse P (body request) = Inr data"
    and "logsOf data = pre @ entry # post"
    and "list_all validEntry pre"
    and "hasMessage entry"
    and "getProp entry ''metadata'' = Inr (Some md)"
  shows \<open>(truthy md \<and> (typeof md \<noteq> ''object'' \<or> isArray md) \<longrightarrow>
            handleRequest P request env = ([ReadBody], metadataNotObject))
         \<and> (\<forall>kpre key v kpost.
               truthy md \<and> md = JObj (kpre @ (key, v) # kpost)
               \<and> list_all (\<lambda>(k, w). scalar w) kpre \<and> \<not> scalar v \<longrightarrow>
               handleRequest P request env = ([ReadBody], metadataNested key))
         \<and> (truthy md \<and> flatObject md \<longrightarrow> (\<forall>j r. entryStep P j entry \<noteq> Inl (Reject r)))
         \<and> (\<not> truthy md \<longrightarrow>
               (\<forall>j r. entryStep P j entry \<noteq> Inl (Reject r))
               \<and> (\<forall>j kvs. entry = JObj kvs \<longrightarrow>
                     entryStep P j entry = entryStep P j (JObj (AList.delete ''metadata'' kvs))
                     \<and> getProp (JObj (AList.delete ''metadata'' kvs)) ''metadata'' = Inr None)
               \<and> (\<exists>kvs. entry = JObj kvs))
         \<and> status metadataNotObject = 400
         \<and> rbody metadataNotObject = Some ''Metadata must be an object''
         \<and> (\<forall>key. status (metadataNested key) = 400
               \<and> rbody (metadataNested key)
                   = Some (''Metadata field "'' @ key @
                           ''" contains nested object. Only flat key-value pairs are allowed.''))\<close>
proof -
  note lift = handleRequest_abort_at [OF assms(1-6)]
  have a: "handleRequest P request env = ([ReadBody], metadataNotObject)"
    if "truthy md" "typeof md \<noteq> ''object'' \<or> isArray md"
    using lift [of "Reject metadataNotObject"]
      entryStep_metadata(1) [OF assms(7,8) that(1) that(2), of P]
    by simp
  have b: "handleRequest P request env = ([ReadBody], metadataNested key)"
    if "truthy md" "md = JObj (kpre @ (key, v) # kpost)"
      "list_all (\<lambda>(k, w). scalar w) kpre" "\<not> scalar v"
    for kpre key v kpost
    using lift [of "Reject (metadataNested key)"]
      entryStep_metadata(2) [OF assms(7,8) that(1) that(2) firstNested_at [OF that(3,4)], of P]
    by simp
  have c: "entryStep P j entry \<noteq> Inl (Reject r)" if "truthy md" "flatObject md" for j r
    by (rule entryStep_metadata(3) [OF assms(7,8) that])
  have f1: "entryStep P j entry \<noteq> Inl (Reject r)" if "\<not> truthy md" for j r
    by (rule entryStep_falsy_metadata_not_Reject [OF assms(7,8) that])
  have f2: "entryStep P j entry = entryStep P j (JObj (AList.delete ''metadata'' kvs))
            \<and> getProp (JObj (AList.delete ''metadata'' kvs)) ''metadata'' = Inr None"
    if "\<not> truthy md" "entry = JObj kvs" for j kvs
  proof -
    from assms(8) that(2) have "map_of kvs ''metadata'' = Some md" by simp
    from entryStep_ignores_falsy_metadata [OF this that(1), of P j] that(2)
    show ?thesis by (simp add: delete_conv')
  qed
  have f3: "\<exists>kvs. entry = JObj kvs"
    using assms(7) by (auto elim: hasMessage_cases)
  have d: "status metadataNotObject = 400"
    "rbody metadataNotObject = Some ''Metadata must be an object''"
    by (simp_all add: metadataNotObject_def plainResponse_def)
  have e: \<open>status (metadataNested key) = 400
           \<and> rbody (metadataNested key)
               = Some (''Metadata field "'' @ key @
                       ''" contains nested object. Only flat key-value pairs are allowed.'')\<close>
    for key
    by (simp add: metadataNested_def plainResponse_def)
  from a b c f1 f2 f3 d e show ?thesis by (intro conjI; blast)
qed

theorem truthy_metadata_validated_witness:
  \<open>handleRequest
      (examplePlatform
         (JArr [JObj [(''message'', JStr ''a'')],
                JObj [(''message'', JStr ''b''),
                      (''metadata'', JObj [(''level'', JStr ''info''),
                                           (''ctx'', JObj [(''x'', JNull)])])]]))
      (exampleRequest ''[{"message":"a"},{"message":"b","metadata":{"level":"info","ctx":{"x":null}}}]'')
      exampleEnv
     = ([ReadBody], metadataNested ''ctx'')
   \<and> status (metadataNested ''ctx'') = 400
   \<and> handleRequest
      (examplePlatform (JObj [(''message'', JStr ''a''), (''metadata'', JStr ''x'')]))
      (exampleRequest ''{"message":"a","metadata":"x"}'') exampleEnv
     = ([ReadBody], metadataNotObject)
   \<and> entryStep (examplePlatform (JObj [(''message'', JStr ''a''), (''metadata'', JNum (Fin 0))])) 0
        (JObj [(''message'', JStr ''a''), (''metadata'', JNum (Fin 0))])
     = entryStep (examplePlatform (JObj [(''message'', JStr ''a''), (''metadata'', JNum (Fin 0))])) 0
        (JObj [(''message'', JStr ''a'')])\<close>
proof -
  let ?md = "JObj [(''level'', JStr ''info''), (''ctx'', JObj [(''x'', JNull)])]"
  let ?e = "JObj [(''message'', JStr ''b''), (''metadata'', ?md)]"
  let ?doc = "JArr [JObj [(''message'', JStr ''a'')], ?e]"
  let ?rq = \<open>exampleRequest ''[{"message":"a"},{"message":"b","metadata":{"level":"info","ctx":{"x":null}}}]''\<close>
  have rq: "method ?rq = ''POST''" "body ?rq \<noteq> []"
    by (simp_all add: exampleRequest_def)
  have env: "configured exampleEnv"
    by (simp add: configured_def exampleEnv_def)
  have parsed: "JSON_parse (examplePlatform ?doc) (body ?rq) = Inr ?doc"
    by (simp add: examplePlatform_def)
  have logs: "logsOf ?doc = [JObj [(''message'', JStr ''a'')]] @ ?e # []"
    by simp
  have pre: "list_all validEntry [JObj [(''message'', JStr ''a'')]]"
    by (simp add: validEntry_def hasMessage_def metadataOk_def timestampOk_def)
  have e: "hasMessage ?e" "getProp ?e ''metadata'' = Inr (Some ?md)"
    by (simp_all add: hasMessage_def)
  have md: "truthy ?md
            \<and> ?md = JObj ([(''level'', JStr ''info'')] @ (''ctx'', JObj [(''x'', JNull)]) # [])
            \<and> list_all (\<lambda>(k, w). scalar w) [(''level'', JStr ''info'')]
            \<and> \<not> scalar (JObj [(''x'', JNull)])"
    by simp
  note th = truthy_metadata_validated [OF rq(1) env rq(2) parsed logs pre e]
  note first = th [THEN conjunct2, THEN conjunct1, THEN spec, THEN spec, THEN spec, THEN spec,
      THEN mp, OF md]
  note code = th [THEN conjunct2, THEN conjunct2, THEN conjunct2, THEN conjunct2,
      THEN conjunct2, THEN conjunct2, THEN spec, THEN conjunct1, of "''ctx''"]
  let ?e2 = "JObj [(''message'', JStr ''a''), (''metadata'', JStr ''x'')]"
  let ?rq2 = \<open>exampleRequest ''{"message":"a","metadata":"x"}''\<close>
  have rq2: "method ?rq2 = ''POST''" "body ?rq2 \<noteq> []"
    by (simp_all add: exampleRequest_def)
  have parsed2: "JSON_parse (examplePlatform ?e2) (body ?rq2) = Inr ?e2"
    by (simp add: examplePlatform_def)
  have logs2: "logsOf ?e2 = [] @ ?e2 # []" by simp
  have none: "list_all validEntry []" by simp
  have e2: "hasMessage ?e2" "getProp ?e2 ''metadata'' = Inr (Some (JStr ''x''))"
    by (simp_all add: hasMessage_def)
  have x: "truthy (JStr ''x'') \<and> (typeof (JStr ''x'') \<noteq> ''object'' \<or> isArray (JStr ''x''))"
    by simp
  note second = truthy_metadata_validated [OF rq2(1) env rq2(2) parsed2 logs2 none e2,
      THEN conjunct1, THEN mp, OF x]
  let ?e3 = "JObj [(''message'', JStr ''a''), (''metadata'', JNum (Fin 0))]"
  let ?rq3 = \<open>exampleRequest ''{"message":"a","metadata":0}''\<close>
  have rq3: "method ?rq3 = ''POST''" "body ?rq3 \<noteq> []"
    by (simp_all add: exampleRequest_def)
  have parsed3: "JSON_parse (examplePlatform ?e3) (body ?rq3) = Inr ?e3"
    by (simp add: examplePlatform_def)
  have logs3: "logsOf ?e3 = [] @ ?e3 # []" by simp
  have e3: "hasMessage ?e3" "getProp ?e3 ''metadata'' = Inr (Some (JNum (Fin 0)))"
    by (simp_all add: hasMessage_def)
  have falsy: "\<not> truthy (JNum (Fin 0))" by simp
  have del: "AList.delete ''metadata'' [(''message'', JStr ''a''), (''metadata'', JNum (Fin 0))]
               = [(''message'', JStr ''a'')]"
    by (simp add: AList.delete_eq)
  note ignored = truthy_metadata_validated [OF rq3(1) env rq3(2) parsed3 logs3 none e3,
      THEN conjunct2, THEN conjunct2, THEN conjunct2, THEN conjunct1, THEN mp, OF falsy,
      THEN conjunct2, THEN conjunct1, THEN spec, THEN spec, THEN mp, OF refl, THEN conjunct1,
      of 0]
  from ignored have third: "entryStep (examplePlatform ?e3) 0 ?e3
                      = entryStep (examplePlatform ?e3) 0 (JObj [(''message'', JStr ''a'')])"
    by (simp only: del)
  from first code second third show ?thesis by (intro conjI)
qed

text \<open>
  Claim C6, as stated, fails in its account of the client address: a header that is
  present but empty is passed over. With \<^verbatim>\<open>CF-Connecting-IP\<close> present and empty and
  \<^verbatim>\<open>X-Forwarded-For: 203.0.113.7\<close>, the label \<^verbatim>\<open>ip\<close> of the forwarded stream is
  \<^verbatim>\<open>203.0.113.7\<close>, not the value of the \<^verbatim>\<open>CF-Connecting-IP\<close> header.
\<close>

theorem empty_header_counterexample:
  \<open>headers_get ((exampleRequest ''{"message":"hello"}'')\<lparr>headers_get := emptyTrustedHeader\<rparr>)
       ''CF-Connecting-IP'' = Some []
   \<and> handleRequest (examplePlatform (JObj [(''message'', JStr ''hello'')]))
        ((exampleRequest ''{"message":"hello"}'')\<lparr>headers_get := emptyTrustedHeader\<rparr>)
        exampleEnv
      = ([ReadBody,
          Fetch (lokiRequest (examplePlatform (JObj [(''message'', JStr ''hello'')])) exampleEnv
                   [(''proxy'', ''miti-loki''), (''ip'', ''203.0.113.7'')]
                   [[JStr ''1762170000000000000'', JStr ''hello'']])],
         \<lparr>rbody = Some [], status = 200, statusText = ''OK'',
          headers = [(''Content-Type'', ''text/plain''),
                     (''Access-Control-Allow-Origin'', ''*''),
                     (''Access-Control-Allow-Methods'', ''POST, OPTIONS''),
                     (''Access-Control-Allow-Headers'', ''Content-Type'')]\<rparr>)\<close>
  by (simp add: handleRequest_def tryBlock_def dispatch_def exampleRequest_def exampleEnv_def
      examplePlatform_def entryStep_def tuple_def clientIP_def relay_def Let_def
      emptyTrustedHeader_def)

text \<open>
  Claim C6, amended. In the label set of every submission that is forwarded, the label
  \<^verbatim>\<open>proxy\<close> is \<^verbatim>\<open>miti-loki\<close> and the label \<^verbatim>\<open>ip\<close> is the resolved client address
  (the \<^verbatim>\<open>CF-Connecting-IP\<close> header if present and not empty, else the
  \<^verbatim>\<open>X-Forwarded-For\<close> header if present and not empty, else \<^verbatim>\<open>unknown\<close>), whatever
  the query parameters are.
\<close>

theorem system_labels_override:
  assumes "Fetch rq \<in> set (fst (handleRequest P request env))"
  shows "\<exists>s. streams rq = [s]
             \<and> map_of (stream s) ''proxy'' = Some ''miti-loki''
             \<and> map_of (stream s) ''ip'' = Some (resolvedIP request)"
proof -
  from handleRequest_effects [OF assms] obtain vals labels0 where
    "rq = lokiRequest P env
            (AList.update ''ip'' (clientIP request)
               (AList.update ''proxy'' ''miti-loki'' labels0)) vals"
    by blast
  then show ?thesis
    by (simp add: lokiRequest_def map_of_system_labels clientIP_resolved)
qed

theorem system_labels_override_witness:
  \<open>Fetch (lokiRequest (examplePlatform (JObj [(''message'', JStr ''hello'')])) exampleEnv
            [(''proxy'', ''miti-loki''), (''ip'', ''198.51.100.4''), (''env'', ''prod'')]
            [[JStr ''1762170000000000000'', JStr ''hello'']])
     \<in> set (fst (handleRequest (examplePlatform (JObj [(''message'', JStr ''hello'')]))
                   ((exampleRequest ''{"message":"hello"}'')
                      \<lparr>searchParams := [(''proxy'', ''evil''), (''ip'', ''10.0.0.1''), (''env'', ''prod'')],
                       headers_get := trustedHeader\<rparr>)
                   exampleEnv))
   \<and> resolvedIP ((exampleRequest ''{"message":"hello"}'')
                      \<lparr>searchParams := [(''proxy'', ''evil''), (''ip'', ''10.0.0.1''), (''env'', ''prod'')],
                       headers_get := trustedHeader\<rparr>)
       = ''198.51.100.4''
   \<and> (\<exists>s. streams (lokiRequest (examplePlatform (JObj [(''message'', JStr ''hello'')])) exampleEnv
                       [(''proxy'', ''miti-loki''), (''ip'', ''198.51.100.4''), (''env'', ''prod'')]
                       [[JStr ''1762170000000000000'', JStr ''hello'']]) = [s]
           \<and> map_of (stream s) ''proxy'' = Some ''miti-loki''
           \<and> map_of (stream s) ''ip'' = Some ''198.51.100.4'')\<close>
proof -
  let ?P = "examplePlatform (JObj [(''message'', JStr ''hello'')])"
  let ?rq = \<open>(exampleRequest ''{"message":"hello"}'')
                \<lparr>searchParams := [(''proxy'', ''evil''), (''ip'', ''10.0.0.1''), (''env'', ''prod'')],
                 headers_get := trustedHeader\<rparr>\<close>
  let ?f = "lokiRequest ?P exampleEnv
              [(''proxy'', ''miti-loki''), (''ip'', ''198.51.100.4''), (''env'', ''prod'')]
              [[JStr ''1762170000000000000'', JStr ''hello'']]"
  have names: "validateLabelName ''proxy''" "validateLabelName ''ip''" "validateLabelName ''env''"
    by (simp_all add: validateLabelName_iff labelStart_def labelRest_def lowerChars_def
        upperChars_def digitChars_def)
  have sent: "Fetch ?f \<in> set (fst (handleRequest ?P ?rq exampleEnv))"
    by (simp add: handleRequest_def tryBlock_def dispatch_def exampleRequest_def exampleEnv_def
        examplePlatform_def entryStep_def tuple_def clientIP_def relay_def Let_def names
        trustedHeader_def)
  have ip: "resolvedIP ?rq = ''198.51.100.4''"
    by (simp add: resolvedIP_def exampleRequest_def trustedHeader_def)
  from system_labels_override [OF sent] sent ip show ?thesis by simp
qed

text \<open>
  Claim C7. A POST for which the host, the username or the password is missing from the
  configuration is answered with the 500 response of the configuration error. No effect
  has taken place: the body has not been read. The answer is the same for every body and
  every platform, so nothing derived from the request can be returned instead.
\<close>

theorem missing_configuration:
  assumes "method request = ''POST''"
    and "LOKI_HOST env = None \<or> LOKI_USERNAME env = None \<or> LOKI_PASSWORD env = None"
  shows "handleRequest P request env = ([], configurationError)
         \<and> status configurationError = 500
         \<and> rbody configurationError = Some ''Server configuration error: Missing Loki credentials''
         \<and> handleRequest P' (request\<lparr>body := b\<rparr>) env = handleRequest P request env"
  using assms
  by (auto simp: handleRequest_def configurationError_def plainResponse_def)

theorem missing_configuration_witness:
  \<open>handleRequest (examplePlatform JNull) (exampleRequest ''{"message":"hello"}'')
       (exampleEnv\<lparr>LOKI_PASSWORD := None\<rparr>)
     = ([], configurationError)
   \<and> status configurationError = 500
   \<and> handleRequest (examplePlatform (JArr [])) (exampleRequest ''not json'')
       (exampleEnv\<lparr>LOKI_PASSWORD := None\<rparr>)
     = ([], configurationError)\<close>
  using missing_configuration [of \<open>exampleRequest ''{"message":"hello"}''\<close>
      \<open>exampleEnv\<lparr>LOKI_PASSWORD := None\<rparr>\<close> \<open>examplePlatform JNull\<close>
      \<open>examplePlatform (JArr [])\<close> \<open>''not json''\<close>]
  by (simp add: exampleRequest_def exampleEnv_def)

text \<open>
  Claim C8, as stated, fails: a port that is set to the empty string is neither unset nor
  \<^verbatim>\<open>443\<close>, and the scheme is \<^verbatim>\<open>https\<close> (the port falls back to \<^verbatim>\<open>443\<close>).
\<close>

theorem empty_port_counterexample:
  "LOKI_PORT (exampleEnv\<lparr>LOKI_PORT := Some []\<rparr>) \<noteq> None
   \<and> LOKI_PORT (exampleEnv\<lparr>LOKI_PORT := Some []\<rparr>) \<noteq> Some ''443''
   \<and> protocol (exampleEnv\<lparr>LOKI_PORT := Some []\<rparr>) = ''https''
   \<and> lokiUrl (exampleEnv\<lparr>LOKI_PORT := Some []\<rparr>)
       = ''https://logs.example.net:443/loki/api/v1/push''"
  by (simp add: exampleEnv_def protocol_def lokiPort_def lokiUrl_def)

text \<open>
  Claim C8, amended. The scheme is \<^verbatim>\<open>https\<close> exactly when \<^verbatim>\<open>LOKI_PORT\<close> is unset,
  empty or the string \<^verbatim>\<open>443\<close>, and \<^verbatim>\<open>http\<close> exactly when it is any other non-empty
  string. The URL of every outbound call is the scheme, \<^verbatim>\<open>://\<close>, the configured host,
  a colon, the port (the configured one, or \<^verbatim>\<open>443\<close> when it is unset or empty) and the
  path \<^verbatim>\<open>/loki/api/v1/push\<close>.
\<close>

theorem outbound_url_scheme:
  "(protocol env = ''https'' \<longleftrightarrow>
      LOKI_PORT env = None \<or> LOKI_PORT env = Some [] \<or> LOKI_PORT env = Some ''443'')
   \<and> (protocol env = ''http'' \<longleftrightarrow>
        (\<exists>p. LOKI_PORT env = Some p \<and> p \<noteq> [] \<and> p \<noteq> ''443''))
   \<and> (\<forall>rq. Fetch rq \<in> set (fst (handleRequest P request env)) \<longrightarrow>
          (\<exists>host. LOKI_HOST env = Some host \<and> host \<noteq> []
             \<and> url rq = protocol env @ ''://'' @ host @ '':'' @ lokiPort env @ ''/loki/api/v1/push'')
          \<and> (LOKI_PORT env = None \<or> LOKI_PORT env = Some [] \<longrightarrow> lokiPort env = ''443'')
          \<and> (\<forall>p. LOKI_PORT env = Some p \<and> p \<noteq> [] \<longrightarrow> lokiPort env = p))"
proof -
  have scheme: "protocol env = ''https'' \<longleftrightarrow>
      LOKI_PORT env = None \<or> LOKI_PORT env = Some [] \<or> LOKI_PORT env = Some ''443''"
    by (cases "LOKI_PORT env") (auto simp: protocol_def lokiPort_def)
  have plain: "protocol env = ''http'' \<longleftrightarrow>
      (\<exists>p. LOKI_PORT env = Some p \<and> p \<noteq> [] \<and> p \<noteq> ''443'')"
    by (cases "LOKI_PORT env") (auto simp: protocol_def lokiPort_def)
  have port: "LOKI_PORT env = None \<or> LOKI_PORT env = Some [] \<longrightarrow> lokiPort env = ''443''"
    "\<forall>p. LOKI_PORT env = Some p \<and> p \<noteq> [] \<longrightarrow> lokiPort env = p"
    by (auto simp: lokiPort_def)
  have sent: "\<exists>host. LOKI_HOST env = Some host \<and> host \<noteq> []
             \<and> url rq = protocol env @ ''://'' @ host @ '':'' @ lokiPort env @ ''/loki/api/v1/push''"
    if "Fetch rq \<in> set (fst (handleRequest P request env))" for rq
  proof -
    from handleRequest_effects [OF that] obtain vals labels where
      conf: "configured env" and rq: "rq = lokiRequest P env labels vals"
      by blast
    from conf obtain host where "LOKI_HOST env = Some host" "host \<noteq> []"
      by (cases "LOKI_HOST env") (auto simp: configured_def)
    with rq show ?thesis by (simp add: lokiRequest_def lokiUrl_def)
  qed
  from scheme plain port sent show ?thesis by blast
qed

theorem outbound_url_scheme_witness:
  \<open>protocol (exampleEnv\<lparr>LOKI_PORT := Some ''3100''\<rparr>) = ''http''
   \<and> protocol exampleEnv = ''https''
   \<and> Fetch (lokiRequest (examplePlatform (JObj [(''message'', JStr ''hello'')]))
              (exampleEnv\<lparr>LOKI_PORT := Some ''3100''\<rparr>)
              [(''proxy'', ''miti-loki''), (''ip'', ''unknown'')]
              [[JStr ''1762170000000000000'', JStr ''hello'']])
       \<in> set (fst (handleRequest (examplePlatform (JObj [(''message'', JStr ''hello'')]))
                     (exampleRequest ''{"message":"hello"}'')
                     (exampleEnv\<lparr>LOKI_PORT := Some ''3100''\<rparr>)))
   \<and> url (lokiRequest (examplePlatform (JObj [(''message'', JStr ''hello'')]))
              (exampleEnv\<lparr>LOKI_PORT := Some ''3100''\<rparr>)
              [(''proxy'', ''miti-loki''), (''ip'', ''unknown'')]
              [[JStr ''1762170000000000000'', JStr ''hello'']])
       = ''http://logs.example.net:3100/loki/api/v1/push''\<close>
proof -
  let ?P = "examplePlatform (JObj [(''message'', JStr ''hello'')])"
  let ?env = "exampleEnv\<lparr>LOKI_PORT := Some ''3100''\<rparr>"
  let ?rq = \<open>exampleRequest ''{"message":"hello"}''\<close>
  let ?f = "lokiRequest ?P ?env [(''proxy'', ''miti-loki''), (''ip'', ''unknown'')]
              [[JStr ''1762170000000000000'', JStr ''hello'']]"
  have port: "LOKI_PORT ?env = Some ''3100''" "LOKI_PORT exampleEnv = None"
    "LOKI_HOST ?env = Some ''logs.example.net''"
    by (simp_all add: exampleEnv_def)
  have sent: "Fetch ?f \<in> set (fst (handleRequest ?P ?rq ?env))"
    by (simp add: handleRequest_def tryBlock_def dispatch_def exampleRequest_def exampleEnv_def
        examplePlatform_def entryStep_def tuple_def clientIP_def relay_def Let_def)
  note th = outbound_url_scheme [of ?env ?P ?rq]
  from th port have http: "protocol ?env = ''http''" by simp
  from outbound_url_scheme [of exampleEnv ?P ?rq] port have https: "protocol exampleEnv = ''https''"
    by simp
  from th sent port have "lokiPort ?env = ''3100''"
    and "\<exists>host. LOKI_HOST ?env = Some host \<and> host \<noteq> []
           \<and> url ?f = protocol ?env @ ''://'' @ host @ '':'' @ lokiPort ?env @ ''/loki/api/v1/push''"
    by blast+
  with http port(3) have "url ?f = ''http://logs.example.net:3100/loki/api/v1/push''"
    by simp
  with http https sent show ?thesis by blast
qed

text \<open>
  Claim C9, as stated, fails: an array that contains a \<^verbatim>\<open>null\<close> element is not always
  answered with the 500. The body \<^verbatim>\<open>[{},null]\<close> contains a \<^verbatim>\<open>null\<close> element, the
  loop stops at the first entry, which has no message, and the response is the 400 of
  the message check; the \<^verbatim>\<open>null\<close> element is never read.
\<close>

theorem earlier_entry_counterexample:
  \<open>handleRequest (examplePlatform (JArr [JObj [], JNull])) (exampleRequest ''[{},null]'') exampleEnv
     = ([ReadBody],
        \<lparr>rbody = Some ''Each log entry must have a "message" field'',
         status = 400, statusText = [],
         headers = [(''Access-Control-Allow-Origin'', ''*'')]\<rparr>)
   \<and> JNull \<in> set (logsOf (JArr [JObj [], JNull]))\<close>
  by (simp add: handleRequest_def tryBlock_def exampleRequest_def exampleEnv_def
      examplePlatform_def entryStep_def plainResponse_def messageRequired_def)

text \<open>
  Claim C9, amended. For a POST with the configuration in place whose body parses to an
  array with a \<^verbatim>\<open>null\<close> element such that every entry before it is valid, reading
  \<^verbatim>\<open>message\<close> of \<^verbatim>\<open>null\<close> throws and the response is the 500 of the
  \<^verbatim>\<open>catch\<close> block, whose text begins \<^verbatim>\<open>Error forwarding to Loki: \<close>; it is not the
  400 of a validation error. Only the body has been read.
\<close>

theorem null_entry_is_500:
  assumes "method request = ''POST''" "configured env" "body request \<noteq> []"
    and "JSON_parse P (body request) = Inr (JArr (pre @ JNull # post))"
    and "list_all validEntry pre"
  shows "handleRequest P request env = ([ReadBody], caught P (NullPropertyRead ''message''))
         \<and> status (caught P (NullPropertyRead ''message'')) = 500
         \<and> rbody (caught P (NullPropertyRead ''message''))
             = Some (''Error forwarding to Loki: '' @ errorMessage P (NullPropertyRead ''message''))"
proof -
  have "handleRequest P request env =
          ([ReadBody], case Throw (NullPropertyRead ''message'') of
                         Reject r \<Rightarrow> r | Throw e \<Rightarrow> caught P e)"
    by (rule handleRequest_abort_at [OF assms(1-4), of pre JNull post])
       (simp_all add: assms(5) entryStep_null)
  then show ?thesis by (simp add: caught_def plainResponse_def)
qed

theorem null_entry_is_500_witness:
  \<open>handleRequest (examplePlatform (JArr [JObj [(''message'', JStr ''a'')], JNull]))
       (exampleRequest ''[{"message":"a"},null]'') exampleEnv
     = ([ReadBody],
        caught (examplePlatform (JArr [JObj [(''message'', JStr ''a'')], JNull]))
          (NullPropertyRead ''message''))
   \<and> status (caught (examplePlatform (JArr [JObj [(''message'', JStr ''a'')], JNull]))
          (NullPropertyRead ''message'')) = 500
   \<and> rbody (caught (examplePlatform (JArr [JObj [(''message'', JStr ''a'')], JNull]))
          (NullPropertyRead ''message''))
       = Some ''Error forwarding to Loki: Cannot read properties of null''\<close>
  using null_entry_is_500 [of \<open>exampleRequest ''[{"message":"a"},null]''\<close> exampleEnv
      \<open>examplePlatform (JArr [JObj [(''message'', JStr ''a'')], JNull])\<close>
      \<open>[JObj [(''message'', JStr ''a'')]]\<close> \<open>[]\<close>]
  by (simp add: exampleRequest_def exampleEnv_def examplePlatform_def configured_def
      validEntry_def hasMessage_def metadataOk_def timestampOk_def)

text \<open>
  Claim C10. An entry whose timestamp is present but is the empty string, 0,
  \<^verbatim>\<open>false\<close> or \<^verbatim>\<open>null\<close> is processed exactly as the same entry without the
  timestamp property: the loop body gives the same result. When the entry has a
  non-empty message and acceptable metadata it is not rejected: the tuple begins with
  the text of the clock read at that moment, and one clock reading has been used.
\<close>

theorem falsy_timestamp_defaulted:
  assumes "map_of kvs ''timestamp'' = Some t"
    and "t = JStr [] \<or> t = JNum (Fin 0) \<or> t = JBool False \<or> t = JNull"
  shows "entryStep P k (JObj kvs) = entryStep P k (JObj (AList.delete ''timestamp'' kvs))
         \<and> map_of (AList.delete ''timestamp'' kvs) ''timestamp'' = None
         \<and> (hasMessage (JObj kvs) \<and> metadataOk (JObj kvs) \<longrightarrow>
              (\<exists>rest. entryStep P k (JObj kvs) = Inr (JStr (Date_now_text P k) # rest, Suc k)))"
proof -
  from assms(2) have falsy: "\<not> truthy t" by auto
  note same = entryStep_ignores_falsy_timestamp [OF assms(1) falsy, of P k]
  have absent: "map_of (AList.delete ''timestamp'' kvs) ''timestamp'' = None"
    by (simp add: delete_conv')
  have "\<exists>rest. entryStep P k (JObj kvs) = Inr (JStr (Date_now_text P k) # rest, Suc k)"
    if "hasMessage (JObj kvs)" "metadataOk (JObj kvs)"
  proof -
    from that assms(1) falsy have "validEntry (JObj kvs)"
      by (simp add: validEntry_def timestampOk_def)
    from entryStep_valid [OF this, of P k] obtain tu k' where
      step: "entryStep P k (JObj kvs) = Inr (tu, k')" by blast
    from entryStep_shape [OF step] chosenTimestamp_falsy(1) [OF assms(1) falsy, of P k]
    obtain rest where "tu = JStr (Date_now_text P k) # rest" "k' = Suc k"
      by (auto split: if_splits)
    with step show ?thesis by blast
  qed
  with same absent show ?thesis by blast
qed

theorem falsy_timestamp_defaulted_witness:
  "map_of [(''message'', JStr ''a''), (''timestamp'', JNum (Fin 0))] ''timestamp''
     = Some (JNum (Fin 0))
   \<and> hasMessage (JObj [(''message'', JStr ''a''), (''timestamp'', JNum (Fin 0))])
   \<and> metadataOk (JObj [(''message'', JStr ''a''), (''timestamp'', JNum (Fin 0))])
   \<and> entryStep (examplePlatform JNull) 0
         (JObj [(''message'', JStr ''a''), (''timestamp'', JNum (Fin 0))])
       = entryStep (examplePlatform JNull) 0 (JObj [(''message'', JStr ''a'')])
   \<and> (\<exists>rest. entryStep (examplePlatform JNull) 0
                (JObj [(''message'', JStr ''a''), (''timestamp'', JNum (Fin 0))])
              = Inr (JStr ''1762170000000000000'' # rest, Suc 0))"
proof -
  have t: "map_of [(''message'', JStr ''a''), (''timestamp'', JNum (Fin 0))] ''timestamp''
             = Some (JNum (Fin 0))"
    by simp
  have m: "hasMessage (JObj [(''message'', JStr ''a''), (''timestamp'', JNum (Fin 0))])"
    by (simp add: hasMessage_def)
  have d: "metadataOk (JObj [(''message'', JStr ''a''), (''timestamp'', JNum (Fin 0))])"
    by (simp add: metadataOk_def)
  have now: "Date_now_text (examplePlatform JNull) 0 = ''1762170000000000000''"
    by (simp add: examplePlatform_def)
  have del: "AList.delete ''timestamp'' [(''message'', JStr ''a''), (''timestamp'', JNum (Fin 0))]
               = [(''message'', JStr ''a'')]"
    by (simp add: AList.delete_eq)
  have falsy: "JNum (Fin 0) = JStr [] \<or> JNum (Fin 0) = JNum (Fin 0)
               \<or> JNum (Fin 0) = JBool False \<or> JNum (Fin 0) = JNull"
    by simp
  from falsy_timestamp_defaulted [OF t falsy, of "examplePlatform JNull" 0] t m d
  show ?thesis unfolding del now by blast
qed

end
